theory Spec2Isabelle
  imports Complex_Main
begin

section \<open>The streaming aggregation engine of softap\_analytics.py\<close>

text \<open>
  The development embeds class \<open>CrowdAnalytics\<close> and the two line parsers of
  \<^verbatim>\<open>src/softap_analytics.py\<close>. Conventions of the embedding:
  \<^item> A naive \<open>datetime\<close> is the integer number of microseconds on the local time line
    (the resolution of \<open>datetime\<close>); a \<open>timedelta\<close> is the integer difference, and
    \<open>total_seconds\<close> divides it by \<open>10^6\<close>.
  \<^item> A finite float is kept as the exact rational it stands for: rounding is not part of
    the embedding, the range of a float is (an integer division beyond it raises, a
    float product beyond it is infinite).
  \<^item> Every call of \<open>datetime.now()\<close> is an input of the model: the function that reads
    the clock takes the reading as its argument \<open>now\<close>.
  \<^item> A Python \<open>dict\<close> is an association list in insertion order (iteration order of a
    \<open>dict\<close>), with at most one entry per key.
  \<^item> The per-device dictionaries are mutable objects that \<open>devices_by_mac\<close> only
    refers to. They live in an explicit store (field \<open>objects\<close>): a reference is an index
    into it, and creating a dictionary appends to it.
  \<^item> A \<open>str\<close> is a HOL \<open>string\<close>: its characters are the code points below 256,
    and the character classes of \<open>re\<close> are Python's on these code points.
\<close>

subsection \<open>Time\<close>

type_synonym datetime = int
type_synonym timedelta = int

definition total_seconds :: "timedelta \<Rightarrow> rat" where
  "total_seconds td = of_int td / 1000000"

text \<open>
  \<open>now.strftime('%Y-%m-%d %H:00')\<close>: the time truncated to the hour. The key is
  represented by the number of whole hours, of which the formatted string is a one-to-one
  and order-preserving rendering.
\<close>

definition hour_key :: "datetime \<Rightarrow> int" where
  "hour_key now = now div 3600000000"

subsection \<open>Exceptions, floats and division\<close>

datatype error = ZeroDivisionError | OverflowError | ValueError | OtherError

text \<open>A float: a finite value, or an infinity with its sign (\<open>True\<close> for \<open>inf\<close>).\<close>

datatype pyfloat = Finite rat | Infinity bool

text \<open>
  The least magnitude that no longer rounds to a finite double: halfway between the
  largest double \<open>2^1024 - 2^971\<close> and \<open>2^1024\<close>.
\<close>

definition float_overflow :: rat where
  "float_overflow = 2 ^ 1024 - 2 ^ 970"

text \<open>
  True division \<open>a / b\<close> of two Python integers: \<open>ZeroDivisionError\<close> for a zero
  divisor, \<open>OverflowError\<close> (``integer division result too large for a float'') for a
  quotient beyond the range of a float.
\<close>

definition truediv :: "int \<Rightarrow> int \<Rightarrow> error + rat" where
  "truediv a b =
     (if b = 0 then Inl ZeroDivisionError
      else if float_overflow \<le> \<bar>of_int a / of_int b\<bar> then Inl OverflowError
      else Inr (of_int a / of_int b))"

text \<open>The product \<open>x * y\<close> of two finite floats: beyond the range it is an infinity.\<close>

definition float_mul :: "rat \<Rightarrow> rat \<Rightarrow> pyfloat" where
  "float_mul x y = (if float_overflow \<le> \<bar>x * y\<bar> then Infinity (0 < x * y) else Finite (x * y))"

subsection \<open>Dictionaries and bounded deques\<close>

type_synonym ('k, 'v) dict = "('k \<times> 'v) list"

definition dict_get :: "('k, 'v) dict \<Rightarrow> 'k \<Rightarrow> 'v option" where
  "dict_get d k = map_of d k"

text \<open>\<open>d[k] = v\<close>: an existing key keeps its position, a new key goes to the end.\<close>

fun dict_set :: "('k, 'v) dict \<Rightarrow> 'k \<Rightarrow> 'v \<Rightarrow> ('k, 'v) dict" where
  "dict_set [] k v = [(k, v)]"
| "dict_set (p # ps) k v = (if fst p = k then (k, v) # ps else p # dict_set ps k v)"

definition MAX_DATA_POINTS :: nat where
  "MAX_DATA_POINTS = 120"

text \<open>
  \<open>deque(maxlen=n).append(x)\<close>: the item is appended and, when the deque then holds more
  than \<open>n\<close> items, the leftmost one is dropped.
\<close>

definition deque_append :: "nat \<Rightarrow> 'a list \<Rightarrow> 'a \<Rightarrow> 'a list" where
  "deque_append maxlen xs x =
     (let ys = xs @ [x] in if maxlen < length ys then tl ys else ys)"

subsection \<open>The session state\<close>

record device =
  first_seen :: datetime
  last_seen :: datetime
  rssi_history :: "int list"
  status :: string
  connect_time :: "datetime option"
  dwell_time :: rat

type_synonym ref = nat

text \<open>One row of the CSV log, with the values before formatting.\<close>

record csv_row =
  row_timestamp :: datetime
  row_connected :: int
  row_nearby :: int
  row_total_probes :: int
  row_total_connections :: int
  row_connection_rate :: pyfloat
  row_unique_devices :: nat

text \<open>
  \<open>csv_rows\<close> stands for \<open>csv_writer\<close>: \<open>None\<close> while no log is open, otherwise the
  rows written after the header.
\<close>

record CrowdAnalytics =
  timestamps :: "datetime list"
  connected_counts :: "int list"
  nearby_counts :: "int list"
  total_devices :: "int list"
  devices_by_mac :: "(string, ref) dict"
  objects :: "device list"
  hourly_stats :: "(int, int) dict"
  total_probes :: int
  total_connections :: int
  all_timestamps :: "datetime list"
  all_device_counts :: "int list"
  all_connection_attempts :: "int list"
  csv_rows :: "csv_row list option"
  session_start :: datetime

definition init :: "datetime \<Rightarrow> CrowdAnalytics" where
  "init now =
     \<lparr> timestamps = [], connected_counts = [], nearby_counts = [], total_devices = [],
       devices_by_mac = [], objects = [], hourly_stats = [],
       total_probes = 0, total_connections = 0,
       all_timestamps = [], all_device_counts = [], all_connection_attempts = [],
       csv_rows = None, session_start = now \<rparr>"


definition CONNECTED :: string where
  "CONNECTED = ''CONNECTED''"

subsection \<open>add\_device\<close>

definition new_device :: "datetime \<Rightarrow> int \<Rightarrow> string \<Rightarrow> device" where
  "new_device now rssi st =
     \<lparr> first_seen = now, last_seen = now, rssi_history = [rssi], status = st,
       connect_time = (if st = CONNECTED then Some now else None),
       dwell_time = 0 \<rparr>"

definition update_device :: "datetime \<Rightarrow> int \<Rightarrow> string \<Rightarrow> device \<Rightarrow> device" where
  "update_device now rssi st d =
     d\<lparr> last_seen := now,
        rssi_history := rssi_history d @ [rssi],
        connect_time := (if st = CONNECTED \<and> status d \<noteq> CONNECTED then Some now
                         else connect_time d),
        status := st,
        dwell_time := total_seconds (now - first_seen d) \<rparr>"

definition bump_hour :: "(int, int) dict \<Rightarrow> int \<Rightarrow> (int, int) dict" where
  "bump_hour hs k = dict_set hs k ((case dict_get hs k of None \<Rightarrow> 0 | Some c \<Rightarrow> c) + 1)"

definition add_device :: "CrowdAnalytics \<Rightarrow> datetime \<Rightarrow> string \<Rightarrow> int \<Rightarrow> string \<Rightarrow> CrowdAnalytics" where
  "add_device s now mac rssi st =
     (let s1 = (case dict_get (devices_by_mac s) mac of
                  None \<Rightarrow>
                    s\<lparr> devices_by_mac := dict_set (devices_by_mac s) mac (length (objects s)),
                       objects := objects s @ [new_device now rssi st] \<rparr>
                | Some r \<Rightarrow>
                    s\<lparr> objects := (objects s)[r := update_device now rssi st (objects s ! r)] \<rparr>)
      in s1\<lparr> hourly_stats := bump_hour (hourly_stats s1) (hour_key now) \<rparr>)"

subsection \<open>add\_statistics\<close>

text \<open>
  The expression
  \<^verbatim>\<open>(total_connects / total_probes * 100) if total_probes > 0 else 0\<close>
  of \<open>add_statistics\<close> and of \<open>generate_analytics_report\<close>.
\<close>

definition connection_rate :: "int \<Rightarrow> int \<Rightarrow> error + pyfloat" where
  "connection_rate total_connects probes =
     (if probes > 0
      then (case truediv total_connects probes of
              Inl e \<Rightarrow> Inl e
            | Inr q \<Rightarrow> Inr (float_mul q 100))
      else Inr (Finite 0))"

text \<open>
  The result pairs the exception that left the method, if any, with the object as the method
  left it: the assignments before the rate is computed are done when it is computed, and the
  row of the log is written after it.
\<close>

definition add_statistics ::
  "CrowdAnalytics \<Rightarrow> datetime \<Rightarrow> int \<Rightarrow> int \<Rightarrow> int \<Rightarrow> int \<Rightarrow> error option \<times> CrowdAnalytics" where
  "add_statistics s now connected' nearby probes total_connects =
     (let s1 = s\<lparr> total_probes := probes,
                  total_connections := total_connects,
                  timestamps := deque_append MAX_DATA_POINTS (timestamps s) now,
                  connected_counts := deque_append MAX_DATA_POINTS (connected_counts s) connected',
                  nearby_counts := deque_append MAX_DATA_POINTS (nearby_counts s) nearby,
                  total_devices := deque_append MAX_DATA_POINTS (total_devices s) (connected' + nearby),
                  all_timestamps := all_timestamps s @ [now],
                  all_device_counts := all_device_counts s @ [connected' + nearby],
                  all_connection_attempts := all_connection_attempts s @ [total_connects] \<rparr>
      in case connection_rate total_connects probes of
           Inl e \<Rightarrow> (Some e, s1)
         | Inr rate \<Rightarrow>
             (None,
              case csv_rows s1 of
                None \<Rightarrow> s1
              | Some rows \<Rightarrow>
                  s1\<lparr> csv_rows := Some (rows @
                        [\<lparr> row_timestamp = now, row_connected = connected', row_nearby = nearby,
                           row_total_probes = probes, row_total_connections = total_connects,
                           row_connection_rate = rate,
                           row_unique_devices = length (devices_by_mac s1) \<rparr>]) \<rparr>))"

subsection \<open>get\_plot\_data\<close>

text \<open>
  \<open>list(...)\<close> and \<open>dict(...)\<close> copy one level. The lists and \<open>hourly_stats\<close> hold
  numbers, so their copies are values of their own. \<open>dict(self.devices_by_mac)\<close> copies the
  table of references: the per-device dictionaries it refers to stay in the store.
\<close>

record plot_data =
  pd_timestamps :: "datetime list"
  pd_connected :: "int list"
  pd_nearby :: "int list"
  pd_total :: "int list"
  pd_total_probes :: int
  pd_total_connections :: int
  pd_total_unique :: nat
  pd_hourly_stats :: "(int, int) dict"
  pd_devices :: "(string, ref) dict"

definition get_plot_data :: "CrowdAnalytics \<Rightarrow> plot_data" where
  "get_plot_data s =
     \<lparr> pd_timestamps = timestamps s,
       pd_connected = connected_counts s,
       pd_nearby = nearby_counts s,
       pd_total = total_devices s,
       pd_total_probes = total_probes s,
       pd_total_connections = total_connections s,
       pd_total_unique = length (devices_by_mac s),
       pd_hourly_stats = hourly_stats s,
       pd_devices = devices_by_mac s \<rparr>"

text \<open>
  \<open>data['devices'][mac]\<close> as a holder of the returned dictionary reads it while the store
  is \<open>heap\<close>.
\<close>

definition read_device :: "device list \<Rightarrow> plot_data \<Rightarrow> string \<Rightarrow> device option" where
  "read_device heap pd mac =
     (case dict_get (pd_devices pd) mac of None \<Rightarrow> None | Some r \<Rightarrow> Some (heap ! r))"

text \<open>\<open>self.devices_by_mac[mac]\<close> and \<open>self.devices_by_mac.values()\<close>.\<close>

definition device_of :: "CrowdAnalytics \<Rightarrow> string \<Rightarrow> device option" where
  "device_of s mac =
     (case dict_get (devices_by_mac s) mac of None \<Rightarrow> None | Some r \<Rightarrow> Some (objects s ! r))"

definition device_values :: "CrowdAnalytics \<Rightarrow> device list" where
  "device_values s = map (\<lambda>(mac, r). objects s ! r) (devices_by_mac s)"

subsection \<open>generate\_analytics\_report\<close>

text \<open>
  \<open>max(xs, key=f)\<close> on a non-empty sequence: the running maximum is replaced only by an
  item whose key is strictly greater, so the first of several maximal items is returned.
\<close>

fun py_max_from :: "('a \<Rightarrow> 'k::linorder) \<Rightarrow> 'a \<Rightarrow> 'a list \<Rightarrow> 'a" where
  "py_max_from key best [] = best"
| "py_max_from key best (x # xs) = py_max_from key (if key best < key x then x else best) xs"

text \<open>
  \<open>np.mean\<close> of a non-empty list of floats (the dwell times, which a \<open>timedelta\<close>
  bounds): the arithmetic mean.
\<close>

definition np_mean :: "rat list \<Rightarrow> rat" where
  "np_mean xs = sum_list xs / of_nat (length xs)"

text \<open>
  \<open>np.mean\<close> of a non-empty list of Python integers is a parameter \<open>mean_ints\<close> of the
  report: how numpy converts integers beyond 64 bits, and what it raises when it cannot, is
  not part of the repository. \<open>exact_mean\<close> is the instance that always returns the
  arithmetic mean.
\<close>

definition exact_mean :: "int list \<Rightarrow> error + rat" where
  "exact_mean xs = Inr (np_mean (map of_int xs))"

text \<open>
  \<open>peak_hour = None\<close> stands for the string \<open>'N/A'\<close>, reported when there is no
  bucket: a key of \<open>hourly_stats\<close> is a non-empty string, so the test
  \<open>peak_hour[0] if peak_hour[0] else 'N/A'\<close> keeps every key.
\<close>

record report =
  rep_session_start :: datetime
  session_duration_hours :: rat
  total_unique_devices :: nat
  rep_total_probes :: int
  successful_connections :: int
  connection_success_rate :: pyfloat
  peak_hour :: "int option"
  peak_hour_count :: int
  avg_devices :: rat
  avg_dwell_time_seconds :: rat
  max_dwell_time_seconds :: rat
  avg_rssi :: rat
  hourly_breakdown :: "(int, int) dict"

definition peak_hour_of :: "(int, int) dict \<Rightarrow> int option \<times> int" where
  "peak_hour_of hs =
     (case hs of [] \<Rightarrow> (None, 0)
      | x # xs \<Rightarrow> (let p = py_max_from snd x xs in (Some (fst p), snd p)))"

text \<open>
  The statements run in the order of the source, so that the first exception raised is the
  one that leaves the method: the mean of the device counts, the success rate, the mean of
  the signal strengths.
\<close>

definition generate_analytics_report ::
  "(int list \<Rightarrow> error + rat) \<Rightarrow> CrowdAnalytics \<Rightarrow> datetime \<Rightarrow> error + report" where
  "generate_analytics_report mean_ints s now =
     (let session_duration = total_seconds (now - session_start s) / 3600;
          peak = peak_hour_of (hourly_stats s)
      in case (if all_device_counts s \<noteq> [] then mean_ints (all_device_counts s) else Inr 0) of
           Inl e \<Rightarrow> Inl e
         | Inr avg_dev \<Rightarrow>
     (let dwell_times = map dwell_time (device_values s);
          avg_dwell = (if dwell_times \<noteq> [] then np_mean dwell_times else 0);
          max_dwell = (case dwell_times of [] \<Rightarrow> 0 | d # ds \<Rightarrow> py_max_from id d ds)
      in case connection_rate (total_connections s) (total_probes s) of
           Inl e \<Rightarrow> Inl e
         | Inr success_rate \<Rightarrow>
     (let all_rssi = concat (map rssi_history (device_values s))
      in case (if all_rssi \<noteq> [] then mean_ints all_rssi else Inr (- 100)) of
           Inl e \<Rightarrow> Inl e
         | Inr avg_rs \<Rightarrow>
             Inr \<lparr> rep_session_start = session_start s,
                   session_duration_hours = session_duration,
                   total_unique_devices = length (devices_by_mac s),
                   rep_total_probes = total_probes s,
                   successful_connections = total_connections s,
                   connection_success_rate = success_rate,
                   peak_hour = fst peak,
                   peak_hour_count = snd peak,
                   avg_devices = avg_dev,
                   avg_dwell_time_seconds = avg_dwell,
                   max_dwell_time_seconds = max_dwell,
                   avg_rssi = avg_rs,
                   hourly_breakdown = hourly_stats s \<rparr>)))"

subsection \<open>Strings and the regular expressions of the parsers\<close>

definition ascii_lowercase :: string where
  "ascii_lowercase = ''abcdefghijklmnopqrstuvwxyz''"

definition ascii_uppercase :: string where
  "ascii_uppercase = ''ABCDEFGHIJKLMNOPQRSTUVWXYZ''"

definition digits :: string where
  "digits = ''0123456789''"

text \<open>
  \<open>str.upper\<close> as it acts on ASCII: the source applies it to the MAC group only, whose
  characters are hexadecimal digits and colons. The embedding also uses it to compare a line
  with the label \<open>MAC:\<close> under \<open>re.IGNORECASE\<close>, where only the ASCII letters of
  either case match the letters of the label.
\<close>

definition upper_char :: "char \<Rightarrow> char" where
  "upper_char c = (case map_of (zip ascii_lowercase ascii_uppercase) c of None \<Rightarrow> c | Some u \<Rightarrow> u)"

definition upper :: "string \<Rightarrow> string" where
  "upper s = map upper_char s"

text \<open>
  The class \<open>\d\<close>: below code point 256 the decimal digits are the ASCII ones.
\<close>

definition is_digit :: "char \<Rightarrow> bool" where
  "is_digit c = (c \<in> set digits)"

text \<open>
  The class \<open>\w\<close> of a \<open>str\<close> pattern: the underscore and every alphanumeric
  character. Below code point 256 these are the ASCII letters and digits, the ordinal
  indicators, the superscript digits, the micro sign, the vulgar fractions (code points
  \<open>AA\<close>, \<open>B2\<close>, \<open>B3\<close>, \<open>B5\<close>, \<open>B9\<close>, \<open>BA\<close>, \<open>BC\<close> to \<open>BE\<close>) and the letters
  \<open>C0\<close> to \<open>FF\<close> without the signs \<open>D7\<close> and \<open>F7\<close>.
\<close>

definition latin1_word :: "nat \<Rightarrow> bool" where
  "latin1_word n =
     (n \<in> {0xAA, 0xB2, 0xB3, 0xB5, 0xB9, 0xBA, 0xBC, 0xBD, 0xBE}
      \<or> (0xC0 \<le> n \<and> n \<le> 0xFF \<and> n \<noteq> 0xD7 \<and> n \<noteq> 0xF7))"

definition is_word :: "char \<Rightarrow> bool" where
  "is_word c =
     (c \<in> set (ascii_lowercase @ ascii_uppercase @ digits @ ''_'') \<or> latin1_word (of_char c))"

text \<open>
  The class \<open>[0-9A-F:]\<close> under \<open>re.IGNORECASE\<close>; no character beyond ASCII matches it.
\<close>

definition is_mac_char :: "char \<Rightarrow> bool" where
  "is_mac_char c = (c \<in> set ''0123456789ABCDEFabcdef:'')"

definition startswith :: "string \<Rightarrow> string \<Rightarrow> bool" where
  "startswith s p = (take (length p) s = p)"

definition startswith_ignorecase :: "string \<Rightarrow> string \<Rightarrow> bool" where
  "startswith_ignorecase s p = (upper (take (length p) s) = upper p)"

text \<open>\<open>p in s\<close>.\<close>

fun contains :: "string \<Rightarrow> string \<Rightarrow> bool" where
  "contains [] p = (p = [])"
| "contains (c # cs) p = (startswith (c # cs) p \<or> contains cs p)"

text \<open>
  \<open>re.search\<close>: \<open>m\<close> matches the pattern at the start of its argument and returns
  group 1; the search takes the leftmost position where it does.
\<close>

fun re_search :: "(string \<Rightarrow> string option) \<Rightarrow> string \<Rightarrow> string option" where
  "re_search m [] = m []"
| "re_search m (c # cs) = (case m (c # cs) of Some g \<Rightarrow> Some g | None \<Rightarrow> re_search m cs)"

text \<open>A label followed by a greedy, non-empty run of one character class.\<close>

definition match_run :: "(string \<Rightarrow> string \<Rightarrow> bool) \<Rightarrow> string \<Rightarrow> (char \<Rightarrow> bool) \<Rightarrow> string \<Rightarrow> string option" where
  "match_run starts label cls s =
     (if starts s label
      then (let g = takeWhile cls (drop (length label) s) in if g = [] then None else Some g)
      else None)"

text \<open>\<open>MAC:([0-9A-F:]+)\<close> with \<open>re.IGNORECASE\<close>.\<close>

definition match_mac :: "string \<Rightarrow> string option" where
  "match_mac = match_run startswith_ignorecase ''MAC:'' is_mac_char"

text \<open>
  \<open>RSSI:(-?\d+)\<close>: when a minus sign follows the label the digits must follow the sign,
  since without the sign the digits would have to start at it.
\<close>

definition match_rssi :: "string \<Rightarrow> string option" where
  "match_rssi s =
     (if startswith s ''RSSI:''
      then (let r = drop 5 s;
                signed = (r \<noteq> [] \<and> hd r = CHR ''-'');
                g = takeWhile is_digit (if signed then tl r else r)
            in if g = [] then None else Some (if signed then CHR ''-'' # g else g))
      else None)"

text \<open>\<open>STATUS:(\w+)\<close>.\<close>

definition match_status :: "string \<Rightarrow> string option" where
  "match_status = match_run startswith ''STATUS:'' is_word"

text \<open>\<open>LABEL:(\d+)\<close>, the shape of the four fields of a statistics line.\<close>

definition match_count :: "string \<Rightarrow> string \<Rightarrow> string option" where
  "match_count label = match_run startswith label is_digit"

text \<open>
  \<open>int(s)\<close> on a string of the shape \<open>-?\d+\<close>. Python integers are unbounded, but the
  conversion raises \<open>ValueError\<close> for more digits than \<open>sys.get_int_max_str_digits()\<close>,
  4300 unless the interpreter is configured otherwise; leading zeros count, the sign does
  not.
\<close>

definition int_max_str_digits :: nat where
  "int_max_str_digits = 4300"

definition digit_value :: "char \<Rightarrow> int" where
  "digit_value c = int (of_char c) - 48"

definition int_of_digits :: "string \<Rightarrow> int" where
  "int_of_digits ds = foldl (\<lambda>n c. 10 * n + digit_value c) 0 ds"

definition py_int :: "string \<Rightarrow> error + int" where
  "py_int s =
     (let signed = (s \<noteq> [] \<and> hd s = CHR ''-'');
          ds = (if signed then tl s else s)
      in if int_max_str_digits < length ds then Inl ValueError
         else Inr (if signed then - int_of_digits ds else int_of_digits ds))"

subsection \<open>parse\_device\_line, parse\_stats\_line and the reader loop\<close>

text \<open>The three groups of a device line, when all three patterns are found.\<close>

definition device_groups :: "string \<Rightarrow> (string \<times> string \<times> string) option" where
  "device_groups line =
     (case re_search match_mac line of None \<Rightarrow> None
      | Some m \<Rightarrow>
     (case re_search match_rssi line of None \<Rightarrow> None
      | Some r \<Rightarrow>
     (case re_search match_status line of None \<Rightarrow> None
      | Some st \<Rightarrow> Some (m, r, st))))"

text \<open>
  An exception of \<open>int\<close> is caught by the \<open>except\<close> clause, after which the function
  returns \<open>False\<close> without having called \<open>add_device\<close>.
\<close>

definition parse_device_line :: "CrowdAnalytics \<Rightarrow> datetime \<Rightarrow> string \<Rightarrow> bool \<times> CrowdAnalytics" where
  "parse_device_line s now line =
     (if \<not> contains line ''[DEVICE]'' then (False, s)
      else (case device_groups line of
              None \<Rightarrow> (False, s)
            | Some (m, r, st) \<Rightarrow>
                (case py_int r of
                   Inl e \<Rightarrow> (False, s)
                 | Inr rssi \<Rightarrow> (True, add_device s now (upper m) rssi st))))"

definition stats_groups :: "string \<Rightarrow> (string \<times> string \<times> string \<times> string) option" where
  "stats_groups line =
     (case re_search (match_count ''CONNECTED:'') line of None \<Rightarrow> None
      | Some c \<Rightarrow>
     (case re_search (match_count ''NEARBY:'') line of None \<Rightarrow> None
      | Some n \<Rightarrow>
     (case re_search (match_count ''TOTAL_PROBES:'') line of None \<Rightarrow> None
      | Some p \<Rightarrow>
     (case re_search (match_count ''TOTAL_CONNECTS:'') line of None \<Rightarrow> None
      | Some t \<Rightarrow> Some (c, n, p, t)))))"

text \<open>
  The four conversions run in the order of the source. An exception of \<open>int\<close> or of
  \<open>add_statistics\<close> is caught by the \<open>except\<close> clause, after which the function returns
  \<open>False\<close>; what \<open>add_statistics\<close> had assigned before it raised stays.
\<close>

definition parse_stats_line :: "CrowdAnalytics \<Rightarrow> datetime \<Rightarrow> string \<Rightarrow> bool \<times> CrowdAnalytics" where
  "parse_stats_line s now line =
     (if \<not> contains line ''[STATS]'' then (False, s)
      else (case stats_groups line of
              None \<Rightarrow> (False, s)
            | Some (c, n, p, t) \<Rightarrow>
     (case py_int c of Inl e \<Rightarrow> (False, s) | Inr connected' \<Rightarrow>
     (case py_int n of Inl e \<Rightarrow> (False, s) | Inr nearby \<Rightarrow>
     (case py_int p of Inl e \<Rightarrow> (False, s) | Inr probes \<Rightarrow>
     (case py_int t of Inl e \<Rightarrow> (False, s) | Inr total_connects \<Rightarrow>
        (let (exc, s') = add_statistics s now connected' nearby probes total_connects
         in (exc = None, s'))))))))"

text \<open>
  One round of the loop of \<open>serial_reader_thread\<close> on a line read, decoded and stripped:
  both parsers see the line, and each reads the clock for itself (\<open>now1\<close>, \<open>now2\<close>) when
  it applies an event.
\<close>

definition read_line :: "CrowdAnalytics \<Rightarrow> string \<times> datetime \<times> datetime \<Rightarrow> CrowdAnalytics" where
  "read_line s inp =
     (case inp of (line, now1, now2) \<Rightarrow>
        if line \<noteq> []
        then (let (is_device, s1) = parse_device_line s now1 line;
                  (is_stats, s2) = parse_stats_line s1 now2 line
              in s2)
        else s)"

definition serial_reader :: "CrowdAnalytics \<Rightarrow> (string \<times> datetime \<times> datetime) list \<Rightarrow> CrowdAnalytics" where
  "serial_reader s inps = foldl read_line s inps"

subsection \<open>Sessions as sequences of calls\<close>

datatype call =
    AddDevice datetime string int string
  | AddStatistics datetime int int int int

fun call_time :: "call \<Rightarrow> datetime" where
  "call_time (AddDevice now mac rssi st) = now"
| "call_time (AddStatistics now c n p t) = now"

fun apply_call :: "CrowdAnalytics \<Rightarrow> call \<Rightarrow> CrowdAnalytics" where
  "apply_call s (AddDevice now mac rssi st) = add_device s now mac rssi st"
| "apply_call s (AddStatistics now c n p t) = snd (add_statistics s now c n p t)"

definition run :: "CrowdAnalytics \<Rightarrow> call list \<Rightarrow> CrowdAnalytics" where
  "run s cs = foldl apply_call s cs"

text \<open>The device events of one identifier, in order: time and status.\<close>

fun events_of :: "string \<Rightarrow> call list \<Rightarrow> (datetime \<times> string) list" where
  "events_of mac [] = []"
| "events_of mac (AddDevice now mac' rssi st # cs) =
     (if mac' = mac then [(now, st)] else []) @ events_of mac cs"
| "events_of mac (AddStatistics now c n p t # cs) = events_of mac cs"

subsection \<open>Notions of the specification\<close>

text \<open>
  The start times of the continuous CONNECTED runs in the events of one device: an event
  starts a run when its status is CONNECTED and the event before it, if any, was not.
  \<open>in_run\<close> tells whether the event before the list was CONNECTED.
\<close>

fun run_starts :: "bool \<Rightarrow> (datetime \<times> string) list \<Rightarrow> datetime list" where
  "run_starts in_run [] = []"
| "run_starts in_run (e # es) =
     (if snd e = CONNECTED \<and> \<not> in_run then [fst e] else []) @ run_starts (snd e = CONNECTED) es"

definition ever_connected :: "(datetime \<times> string) list \<Rightarrow> bool" where
  "ever_connected es = (CONNECTED \<in> set (map snd es))"

text \<open>The last element of a list, if any.\<close>

definition latest :: "'a list \<Rightarrow> 'a option" where
  "latest xs = (if xs = [] then None else Some (last xs))"

text \<open>
  The hour key with the maximum count, the earliest such key when several have it
  (\<open>None\<close> when there is no bucket).
\<close>

definition spec_peak_hour :: "(int, int) dict \<Rightarrow> int option" where
  "spec_peak_hour hs =
     (if hs = [] then None
      else Some (Min (set (map fst (filter (\<lambda>p. snd p = Max (set (map snd hs))) hs)))))"

text \<open>
  The hour key with the maximum count, the one inserted first when several have it.
\<close>

definition first_max_key :: "(int, int) dict \<Rightarrow> int option" where
  "first_max_key hs = map_option fst (find (\<lambda>p. snd p = Max (set (map snd hs))) hs)"

text \<open>
  The MAC field of a line that the reader loop applies as a device event, as it stands in
  the line, and the fields of a sequence of inputs.
\<close>

definition mac_field :: "string \<Rightarrow> string option" where
  "mac_field line =
     (if line \<noteq> [] \<and> contains line ''[DEVICE]''
      then (case device_groups line of
              None \<Rightarrow> None
            | Some (m, r, st) \<Rightarrow> (case py_int r of Inl e \<Rightarrow> None | Inr rssi \<Rightarrow> Some m))
      else None)"

definition mac_fields :: "(string \<times> datetime \<times> datetime) list \<Rightarrow> string list" where
  "mac_fields inps = List.map_filter (\<lambda>inp. mac_field (fst inp)) inps"

text \<open>
  The references of \<open>devices_by_mac\<close> are those of distinct, existing objects, one per key.
\<close>

definition wf :: "CrowdAnalytics \<Rightarrow> bool" where
  "wf s \<longleftrightarrow>
     distinct (map fst (devices_by_mac s)) \<and> distinct (map snd (devices_by_mac s)) \<and>
     list_all (\<lambda>r. r < length (objects s)) (map snd (devices_by_mac s))"

section \<open>Properties\<close>

subsection \<open>The guarded division\<close>


lemma connection_rate_cases:
  "connection_rate c p =
     (if 0 < p
      then (if float_overflow \<le> \<bar>of_int c / of_int p\<bar> then Inl OverflowError
            else Inr (float_mul (of_int c / of_int p) 100))
      else Inr (Finite 0))"
  by (simp add: connection_rate_def truediv_def)




text \<open>What \<open>add_statistics\<close> leaves in the object, whether it raises or not.\<close>

lemma add_statistics_fields:
  "total_probes (snd (add_statistics s now c n p t)) = p"
  "total_connections (snd (add_statistics s now c n p t)) = t"
  "timestamps (snd (add_statistics s now c n p t)) = deque_append MAX_DATA_POINTS (timestamps s) now"
  "connected_counts (snd (add_statistics s now c n p t)) = deque_append MAX_DATA_POINTS (connected_counts s) c"
  "nearby_counts (snd (add_statistics s now c n p t)) = deque_append MAX_DATA_POINTS (nearby_counts s) n"
  "total_devices (snd (add_statistics s now c n p t)) = deque_append MAX_DATA_POINTS (total_devices s) (c + n)"
  "all_timestamps (snd (add_statistics s now c n p t)) = all_timestamps s @ [now]"
  "all_device_counts (snd (add_statistics s now c n p t)) = all_device_counts s @ [c + n]"
  "all_connection_attempts (snd (add_statistics s now c n p t)) = all_connection_attempts s @ [t]"
  "devices_by_mac (snd (add_statistics s now c n p t)) = devices_by_mac s"
  "objects (snd (add_statistics s now c n p t)) = objects s"
  "hourly_stats (snd (add_statistics s now c n p t)) = hourly_stats s"
  "session_start (snd (add_statistics s now c n p t)) = session_start s"
  by (simp_all add: add_statistics_def Let_def split: sum.split option.split)

lemma add_statistics_exception:
  "fst (add_statistics s now c n p t) = (case connection_rate t p of Inl e \<Rightarrow> Some e | Inr rate \<Rightarrow> None)"
  by (simp add: add_statistics_def Let_def split: sum.split)

lemma add_statistics_nolog:
  "csv_rows s = None \<Longrightarrow>
   snd (add_statistics s now c n p t) =
     s\<lparr> total_probes := p, total_connections := t,
        timestamps := deque_append MAX_DATA_POINTS (timestamps s) now,
        connected_counts := deque_append MAX_DATA_POINTS (connected_counts s) c,
        nearby_counts := deque_append MAX_DATA_POINTS (nearby_counts s) n,
        total_devices := deque_append MAX_DATA_POINTS (total_devices s) (c + n),
        all_timestamps := all_timestamps s @ [now],
        all_device_counts := all_device_counts s @ [c + n],
        all_connection_attempts := all_connection_attempts s @ [t] \<rparr>"
  by (simp add: add_statistics_def Let_def split: sum.split)

text \<open>The equations that evaluate a session on concrete calls.\<close>

lemmas eval_defs = run_def add_device_def add_statistics_nolog Let_def dict_get_def device_of_def init_def
      new_device_def update_device_def bump_hour_def hour_key_def total_seconds_def CONNECTED_def
      deque_append_def MAX_DATA_POINTS_def

subsection \<open>Dictionaries and the store of device records\<close>

lemma map_of_dict_set: "map_of (dict_set d k v) = (map_of d)(k \<mapsto> v)"
  by (induction d) (auto simp: fun_eq_iff)

lemma dict_set_new: "map_of d k = None \<Longrightarrow> dict_set d k v = d @ [(k, v)]"
  by (induction d) (auto split: if_splits)

lemma keys_dict_set:
  "map fst (dict_set d k v) = (if k \<in> set (map fst d) then map fst d else map fst d @ [k])"
  by (induction d) auto

lemma map_of_None_iff: "map_of d k = None \<longleftrightarrow> k \<notin> set (map fst d)"
  by (simp add: map_of_eq_None_iff)

lemma wf_init: "wf (init t0)"
  by (simp add: wf_def init_def)

lemma wf_add_device: "wf s \<Longrightarrow> wf (add_device s now mac rssi st)"
  by (auto simp: wf_def add_device_def Let_def dict_get_def dict_set_new map_of_None_iff
      list_all_iff split: option.splits)

lemma wf_add_statistics: "wf s \<Longrightarrow> wf (snd (add_statistics s now c n p t))"
  by (simp add: wf_def add_statistics_fields)

lemma wf_apply_call: "wf s \<Longrightarrow> wf (apply_call s c)"
  by (cases c) (simp_all add: wf_add_device wf_add_statistics)

lemma wf_run: "wf s \<Longrightarrow> wf (run s cs)"
  unfolding run_def by (induction cs arbitrary: s) (simp_all add: wf_apply_call)

lemma run_snoc: "run s (cs @ [c]) = apply_call (run s cs) c"
  by (simp add: run_def)

lemma run_append: "run s (cs @ ds) = run (run s cs) ds"
  by (simp add: run_def)

lemma device_of_add_statistics:
  "device_of (snd (add_statistics s now c n p t)) m = device_of s m"
  by (simp add: device_of_def add_statistics_fields split: option.split)

lemma wf_ref_lt: "wf s \<Longrightarrow> map_of (devices_by_mac s) m = Some r \<Longrightarrow> r < length (objects s)"
  by (auto simp: wf_def list_all_iff dest!: map_of_SomeD)

lemma distinct_snd_inj:
  "distinct (map snd d) \<Longrightarrow> (a, r) \<in> set d \<Longrightarrow> (b, r) \<in> set d \<Longrightarrow> a = b"
  by (induction d) force+

lemma wf_ref_inj:
  "wf s \<Longrightarrow> map_of (devices_by_mac s) m = Some r \<Longrightarrow> map_of (devices_by_mac s) m' = Some r \<Longrightarrow> m = m'"
  by (auto simp: wf_def dest!: map_of_SomeD dest: distinct_snd_inj)

lemma device_of_add_device:
  assumes "wf s"
  shows "device_of (add_device s now mac rssi st) m =
     (if m = mac
      then Some (case device_of s mac of None \<Rightarrow> new_device now rssi st
                 | Some d \<Rightarrow> update_device now rssi st d)
      else device_of s m)"
proof (cases "map_of (devices_by_mac s) mac")
  case None
  have old: "(objects s @ [x]) ! r = objects s ! r" if "map_of (devices_by_mac s) m = Some r" for x r
    using wf_ref_lt [OF assms that] by (simp add: nth_append)
  show ?thesis
    using None old
    by (auto simp: device_of_def add_device_def Let_def dict_get_def dict_set_new
        split: option.splits)
next
  case (Some r)
  have lt: "r < length (objects s)" using wf_ref_lt [OF assms Some] .
  have other: "r' \<noteq> r" if "map_of (devices_by_mac s) m = Some r'" "m \<noteq> mac" for r'
    using wf_ref_inj [OF assms that(1), of mac] Some that(2) by auto
  show ?thesis
    using Some lt other
    by (auto simp: device_of_def add_device_def Let_def dict_get_def split: option.splits)
qed

lemma map_of_Some_key: "map_of d k = Some v \<Longrightarrow> k \<in> fst ` set d"
  by (force dest!: map_of_SomeD)

lemma keys_add_device:
  "map fst (devices_by_mac (add_device s now mac rssi st)) =
     (if mac \<in> set (map fst (devices_by_mac s)) then map fst (devices_by_mac s)
      else map fst (devices_by_mac s) @ [mac])"
  by (auto simp: add_device_def Let_def dict_get_def dict_set_new map_of_None_iff
      split: option.splits dest: map_of_Some_key)

lemma keys_add_statistics:
  "devices_by_mac (snd (add_statistics s now c n p t)) = devices_by_mac s"
  by (rule add_statistics_fields)

lemma device_of_None_iff: "device_of s m = None \<longleftrightarrow> m \<notin> set (map fst (devices_by_mac s))"
  by (auto simp: device_of_def dict_get_def map_of_None_iff split: option.split dest: map_of_Some_key)

subsection \<open>The history of a device record\<close>

lemma events_of_append: "events_of mac (cs @ ds) = events_of mac cs @ events_of mac ds"
  by (induction mac cs rule: events_of.induct) simp_all

lemma run_starts_snoc:
  "run_starts b (es @ [e]) =
     run_starts b es @
     (if snd e = CONNECTED \<and> \<not> (if es = [] then b else snd (last es) = CONNECTED) then [fst e] else [])"
  by (induction es arbitrary: b) auto

lemma run_starts_Nil_iff: "run_starts False es = [] \<longleftrightarrow> \<not> ever_connected es"
proof -
  have "\<not> b \<Longrightarrow> run_starts b es = [] \<longleftrightarrow> CONNECTED \<notin> snd ` set es" for b
    by (induction es arbitrary: b) auto
  from this [of False] show ?thesis by (simp add: ever_connected_def)
qed

lemma device_of_init: "device_of (init t0) mac = None"
  by (simp add: device_of_def init_def dict_get_def)

lemma device_of_apply_call:
  "wf s \<Longrightarrow> device_of (apply_call s c) m =
     (case c of
        AddDevice now mac rssi st \<Rightarrow>
          (if m = mac
           then Some (case device_of s mac of None \<Rightarrow> new_device now rssi st
                      | Some d \<Rightarrow> update_device now rssi st d)
           else device_of s m)
      | AddStatistics now cn nb p t \<Rightarrow> device_of s m)"
  by (cases c) (simp_all add: device_of_add_device device_of_add_statistics)

lemma device_of_run_None:
  "device_of (run (init t0) cs) mac = None \<longleftrightarrow> events_of mac cs = []"
proof (induction cs rule: rev_induct)
  case Nil
  show ?case by (simp add: run_def device_of_init)
next
  case (snoc c cs)
  have w: "wf (run (init t0) cs)" by (simp add: wf_run wf_init)
  show ?case
    using snoc
    by (cases c) (simp_all add: run_snoc events_of_append device_of_add_device [OF w] device_of_add_statistics)
qed

lemma device_of_run_Some:
  "device_of (run (init t0) cs) mac = Some d \<Longrightarrow>
     first_seen d = fst (hd (events_of mac cs)) \<and>
     last_seen d = fst (last (events_of mac cs)) \<and>
     status d = snd (last (events_of mac cs)) \<and>
     dwell_time d = total_seconds (last_seen d - first_seen d) \<and>
     connect_time d = latest (run_starts False (events_of mac cs))"
proof (induction cs arbitrary: d rule: rev_induct)
  case Nil
  then show ?case by (simp add: run_def device_of_init)
next
  case (snoc c cs)
  let ?s = "run (init t0) cs"
  have w: "wf ?s" by (simp add: wf_run wf_init)
  show ?case
  proof (cases c)
    case (AddStatistics now cn nb p t)
    with snoc show ?thesis
      by (simp add: run_snoc events_of_append device_of_add_device [OF w] device_of_add_statistics)
  next
    case (AddDevice now mac' rssi st)
    show ?thesis
    proof (cases "mac' = mac")
      case False
      with snoc AddDevice show ?thesis
        by (simp add: run_snoc events_of_append device_of_add_device [OF w] device_of_add_statistics)
    next
      case True
      show ?thesis
      proof (cases "device_of ?s mac")
        case None
        then have "events_of mac cs = []" by (simp add: device_of_run_None)
        with snoc.prems AddDevice True None show ?thesis
          by (auto simp: run_snoc events_of_append device_of_add_device [OF w] device_of_add_statistics new_device_def
              total_seconds_def latest_def)
      next
        case (Some d0)
        then have ne: "events_of mac cs \<noteq> []" using device_of_run_None [of t0 cs mac] by auto
        note ih = snoc.IH [OF Some]
        have d: "d = update_device now rssi st d0"
          using snoc.prems AddDevice True Some
          by (simp add: run_snoc device_of_add_device [OF w] device_of_add_statistics)
        show ?thesis
          using ih ne AddDevice True
          by (auto simp: d update_device_def events_of_append run_starts_snoc latest_def)
      qed
    qed
  qed
qed

lemma run_starts_append:
  "run_starts b (es @ fs) =
     run_starts b es @ run_starts (if es = [] then b else snd (last es) = CONNECTED) fs"
  by (induction es arbitrary: b) auto

lemma ever_connected_append: "ever_connected (es @ fs) \<longleftrightarrow> ever_connected es \<or> ever_connected fs"
  by (auto simp: ever_connected_def)

subsection \<open>Connection rate and counters\<close>




text \<open>
  C6. After \<open>add_statistics\<close> the stored \<open>total_probes\<close> and \<open>total_connections\<close> are the
  reported values, whatever was stored before and whether or not the call raises: the method
  gives the same result from any stored totals, so nothing is clamped and nothing depends
  on the totals growing. The call ends without an exception unless the division of the
  rate overflows.
\<close>

theorem add_statistics_overwrites_totals:
  "total_probes (snd (add_statistics s now c n p t)) = p
   \<and> total_connections (snd (add_statistics s now c n p t)) = t
   \<and> all_connection_attempts (snd (add_statistics s now c n p t)) = all_connection_attempts s @ [t]
   \<and> add_statistics (s\<lparr>total_probes := p0, total_connections := t0\<rparr>) now c n p t
       = add_statistics s now c n p t
   \<and> (fst (add_statistics s now c n p t) = None)
       = (\<not> (0 < p \<and> float_overflow \<le> \<bar>of_int t / of_int p :: rat\<bar>))"
proof -
  have same: "add_statistics (s\<lparr>total_probes := p0, total_connections := t0\<rparr>) now c n p t
       = add_statistics s now c n p t"
    by (simp add: add_statistics_def Let_def split: sum.split option.split)
  have exc: "(fst (add_statistics s now c n p t) = None)
       = (\<not> (0 < p \<and> float_overflow \<le> \<bar>of_int t / of_int p :: rat\<bar>))"
    by (simp add: add_statistics_exception connection_rate_cases)
  show ?thesis
    by (intro conjI add_statistics_fields same exc)
qed

subsection \<open>Connection time\<close>

text \<open>
  A device that connects, drops back to NEARBY and connects again has its
  \<open>connect_time\<close> replaced by the time of the second connection.
\<close>

theorem connect_time_reset_counterexample:
  "map_option connect_time
     (device_of (run (init 0)
        [AddDevice 1000000 ''AA:BB:CC:DD:EE:01'' (- 40) ''NEARBY'',
         AddDevice 2000000 ''AA:BB:CC:DD:EE:01'' (- 38) ''CONNECTED'']) ''AA:BB:CC:DD:EE:01'')
     = Some (Some 2000000)
   \<and> map_option connect_time
     (device_of (run (init 0)
        [AddDevice 1000000 ''AA:BB:CC:DD:EE:01'' (- 40) ''NEARBY'',
         AddDevice 2000000 ''AA:BB:CC:DD:EE:01'' (- 38) ''CONNECTED'',
         AddDevice 5000000 ''AA:BB:CC:DD:EE:01'' (- 55) ''NEARBY'',
         AddDevice 8000000 ''AA:BB:CC:DD:EE:01'' (- 39) ''CONNECTED'']) ''AA:BB:CC:DD:EE:01'')
     = Some (Some 8000000)"
  by (simp add: eval_defs)

text \<open>
  C2 (amended). For a tracked device, \<open>connect_time\<close> is \<open>None\<close> exactly when none of its
  events had status CONNECTED; otherwise it is the time of the event that started its most
  recent continuous CONNECTED run: it is set once per run, by the run's first event, and a
  later run replaces the time of an earlier one. Once set it is never cleared, and later
  calls that start no new run leave it as it is.
\<close>

theorem connect_time_set_once_per_run:
  assumes "device_of (run (init t0) cs) mac = Some d"
    and "device_of (run (init t0) (cs @ ds)) mac = Some d'"
  shows "(connect_time d = None \<longleftrightarrow> \<not> ever_connected (events_of mac cs))
    \<and> connect_time d = latest (run_starts False (events_of mac cs))
    \<and> (connect_time d \<noteq> None \<longrightarrow> connect_time d' \<noteq> None)
    \<and> (run_starts (status d = CONNECTED) (events_of mac ds) = [] \<longrightarrow> connect_time d' = connect_time d)
    \<and> (run_starts (status d = CONNECTED) (events_of mac ds) \<noteq> [] \<longrightarrow>
         connect_time d' = Some (last (run_starts (status d = CONNECTED) (events_of mac ds))))"
proof -
  let ?es = "events_of mac cs"
  note h = device_of_run_Some [OF assms(1)] and h' = device_of_run_Some [OF assms(2)]
  have ne: "?es \<noteq> []" using assms(1) device_of_run_None [of t0 cs mac] by auto
  have ct: "connect_time d = latest (run_starts False ?es)" using h by simp
  have none: "connect_time d = None \<longleftrightarrow> \<not> ever_connected ?es"
    by (simp add: ct latest_def run_starts_Nil_iff)
  have none': "connect_time d' = None \<longleftrightarrow> \<not> ever_connected (?es @ events_of mac ds)"
    using h' by (simp add: latest_def run_starts_Nil_iff events_of_append)
  have keep: "connect_time d' = connect_time d"
    if "run_starts (status d = CONNECTED) (events_of mac ds) = []"
    using h h' ne that by (simp add: events_of_append run_starts_append)
  have new: "connect_time d' = Some (last (run_starts (status d = CONNECTED) (events_of mac ds)))"
    if "run_starts (status d = CONNECTED) (events_of mac ds) \<noteq> []"
    using h h' ne that by (simp add: events_of_append run_starts_append latest_def)
  show ?thesis
    using ct none none' keep new by (simp add: ever_connected_append)
qed

theorem connect_time_set_once_per_run_witness:
  "device_of (run (init 0)
       [AddDevice 1 ''A'' (- 40) ''NEARBY'', AddDevice 2 ''A'' (- 38) ''CONNECTED'',
        AddStatistics 3 1 0 5 1, AddDevice 4 ''B'' (- 70) ''NEARBY'',
        AddDevice 5 ''A'' (- 50) ''NEARBY'', AddDevice 8 ''A'' (- 37) ''CONNECTED'',
        AddDevice 9 ''A'' (- 36) ''CONNECTED'']) ''A''
     = Some \<lparr>first_seen = 1, last_seen = 9, rssi_history = [- 40, - 38, - 50, - 37, - 36],
         status = ''CONNECTED'', connect_time = Some 8, dwell_time = 1 / 125000\<rparr>
   \<and> device_of (run (init 0)
       ([AddDevice 1 ''A'' (- 40) ''NEARBY'', AddDevice 2 ''A'' (- 38) ''CONNECTED'',
        AddStatistics 3 1 0 5 1, AddDevice 4 ''B'' (- 70) ''NEARBY'',
        AddDevice 5 ''A'' (- 50) ''NEARBY'', AddDevice 8 ''A'' (- 37) ''CONNECTED'',
        AddDevice 9 ''A'' (- 36) ''CONNECTED''] @ [AddDevice 10 ''A'' (- 60) ''NEARBY''])) ''A''
     = Some \<lparr>first_seen = 1, last_seen = 10, rssi_history = [- 40, - 38, - 50, - 37, - 36, - 60],
         status = ''NEARBY'', connect_time = Some 8, dwell_time = 9 / 1000000\<rparr>
   \<and> device_of (run (init 0)
       ([AddDevice 1 ''A'' (- 40) ''NEARBY'', AddDevice 2 ''A'' (- 38) ''CONNECTED'',
        AddStatistics 3 1 0 5 1, AddDevice 4 ''B'' (- 70) ''NEARBY'',
        AddDevice 5 ''A'' (- 50) ''NEARBY'', AddDevice 8 ''A'' (- 37) ''CONNECTED'',
        AddDevice 9 ''A'' (- 36) ''CONNECTED'']
        @ [AddDevice 10 ''A'' (- 60) ''NEARBY'', AddDevice 12 ''A'' (- 35) ''CONNECTED''])) ''A''
     = Some \<lparr>first_seen = 1, last_seen = 12, rssi_history = [- 40, - 38, - 50, - 37, - 36, - 60, - 35],
         status = ''CONNECTED'', connect_time = Some 12, dwell_time = 11 / 1000000\<rparr>
   \<and> ever_connected (events_of ''A''
       [AddDevice 1 ''A'' (- 40) ''NEARBY'', AddDevice 2 ''A'' (- 38) ''CONNECTED'',
        AddStatistics 3 1 0 5 1, AddDevice 4 ''B'' (- 70) ''NEARBY'',
        AddDevice 5 ''A'' (- 50) ''NEARBY'', AddDevice 8 ''A'' (- 37) ''CONNECTED'',
        AddDevice 9 ''A'' (- 36) ''CONNECTED''])
   \<and> run_starts False (events_of ''A''
       [AddDevice 1 ''A'' (- 40) ''NEARBY'', AddDevice 2 ''A'' (- 38) ''CONNECTED'',
        AddStatistics 3 1 0 5 1, AddDevice 4 ''B'' (- 70) ''NEARBY'',
        AddDevice 5 ''A'' (- 50) ''NEARBY'', AddDevice 8 ''A'' (- 37) ''CONNECTED'',
        AddDevice 9 ''A'' (- 36) ''CONNECTED'']) = [2, 8]
   \<and> run_starts True (events_of ''A'' [AddDevice 10 ''A'' (- 60) ''NEARBY'']) = []
   \<and> run_starts True (events_of ''A''
        [AddDevice 10 ''A'' (- 60) ''NEARBY'', AddDevice 12 ''A'' (- 35) ''CONNECTED'']) = [12]"
  using connect_time_set_once_per_run [of 0
       "[AddDevice 1 ''A'' (- 40) ''NEARBY'', AddDevice 2 ''A'' (- 38) ''CONNECTED'',
        AddStatistics 3 1 0 5 1, AddDevice 4 ''B'' (- 70) ''NEARBY'',
        AddDevice 5 ''A'' (- 50) ''NEARBY'', AddDevice 8 ''A'' (- 37) ''CONNECTED'',
        AddDevice 9 ''A'' (- 36) ''CONNECTED'']" "''A''"
       "\<lparr>first_seen = 1, last_seen = 9, rssi_history = [- 40, - 38, - 50, - 37, - 36],
         status = ''CONNECTED'', connect_time = Some 8, dwell_time = 1 / 125000\<rparr>"
       "[AddDevice 10 ''A'' (- 60) ''NEARBY'']"
       "\<lparr>first_seen = 1, last_seen = 10, rssi_history = [- 40, - 38, - 50, - 37, - 36, - 60],
         status = ''NEARBY'', connect_time = Some 8, dwell_time = 9 / 1000000\<rparr>"]
    connect_time_set_once_per_run [of 0
       "[AddDevice 1 ''A'' (- 40) ''NEARBY'', AddDevice 2 ''A'' (- 38) ''CONNECTED'',
        AddStatistics 3 1 0 5 1, AddDevice 4 ''B'' (- 70) ''NEARBY'',
        AddDevice 5 ''A'' (- 50) ''NEARBY'', AddDevice 8 ''A'' (- 37) ''CONNECTED'',
        AddDevice 9 ''A'' (- 36) ''CONNECTED'']" "''A''"
       "\<lparr>first_seen = 1, last_seen = 9, rssi_history = [- 40, - 38, - 50, - 37, - 36],
         status = ''CONNECTED'', connect_time = Some 8, dwell_time = 1 / 125000\<rparr>"
       "[AddDevice 10 ''A'' (- 60) ''NEARBY'', AddDevice 12 ''A'' (- 35) ''CONNECTED'']"
       "\<lparr>first_seen = 1, last_seen = 12, rssi_history = [- 40, - 38, - 50, - 37, - 36, - 60, - 35],
         status = ''CONNECTED'', connect_time = Some 12, dwell_time = 11 / 1000000\<rparr>"]
  by (simp add: eval_defs latest_def ever_connected_def)

subsection \<open>Seen times and dwell time\<close>

lemma events_of_times: "set (map fst (events_of mac cs)) \<subseteq> set (map call_time cs)"
  by (induction mac cs rule: events_of.induct) auto

lemma sorted_events_of:
  "sorted (map call_time cs) \<Longrightarrow> sorted (map fst (events_of mac cs))"
proof (induction mac cs rule: events_of.induct)
  case (2 mac now mac' rssi st cs)
  then show ?case using events_of_times [of mac cs] by auto
qed simp_all

lemma sorted_hd_le_last: "sorted xs \<Longrightarrow> xs \<noteq> [] \<Longrightarrow> hd xs \<le> (last xs :: int)"
  by (cases xs) (auto)

lemma read_device_snapshot: "read_device (objects s) (get_plot_data s) mac = device_of s mac"
  by (simp add: read_device_def get_plot_data_def device_of_def)

lemma ref_kept_add_device:
  "map_of (devices_by_mac s) m = Some r \<Longrightarrow>
   map_of (devices_by_mac (add_device s now mac rssi st)) m = Some r"
  by (auto simp: add_device_def Let_def dict_get_def dict_set_new map_of_append split: option.split)

lemma ref_kept_apply_call:
  "map_of (devices_by_mac s) m = Some r \<Longrightarrow> map_of (devices_by_mac (apply_call s c)) m = Some r"
  by (cases c) (simp_all add: ref_kept_add_device keys_add_statistics)

lemma ref_kept_run:
  "map_of (devices_by_mac s) m = Some r \<Longrightarrow> map_of (devices_by_mac (run s cs)) m = Some r"
  unfolding run_def by (induction cs arbitrary: s) (simp_all add: ref_kept_apply_call)

lemma read_device_later:
  assumes "read_device (objects (run (init t0) (cs @ ds))) (get_plot_data (run (init t0) cs)) mac = Some d"
  shows "device_of (run (init t0) (cs @ ds)) mac = Some d"
proof -
  obtain r where r: "map_of (devices_by_mac (run (init t0) cs)) mac = Some r"
    and d: "d = objects (run (init t0) (cs @ ds)) ! r"
    using assms by (auto simp: read_device_def get_plot_data_def dict_get_def split: option.splits)
  have "map_of (devices_by_mac (run (init t0) (cs @ ds))) mac = Some r"
    using ref_kept_run [OF r, of ds] by (simp add: run_append)
  then show ?thesis by (simp add: device_of_def dict_get_def d)
qed

text \<open>
  C3. When the times of successive calls do not decrease, every device record read from a
  snapshot, at the time the snapshot is taken or after any further calls, has
  \<open>first_seen \<le> last_seen\<close> and a dwell time equal to \<open>last_seen - first_seen\<close> in
  seconds, hence not negative. \<open>first_seen\<close> is the time of the device's first event (set
  at creation, never changed) and \<open>last_seen\<close> the time of its last event so far (updated
  by every event of the device).
\<close>

theorem dwell_time_consistent:
  assumes "sorted (map call_time (cs @ ds))"
    and "read_device (objects (run (init t0) (cs @ ds))) (get_plot_data (run (init t0) cs)) mac = Some d"
  shows "first_seen d \<le> last_seen d
    \<and> dwell_time d = total_seconds (last_seen d - first_seen d)
    \<and> 0 \<le> dwell_time d
    \<and> events_of mac cs \<noteq> []
    \<and> first_seen d = fst (hd (events_of mac cs))
    \<and> last_seen d = fst (last (events_of mac (cs @ ds)))"
proof -
  let ?es = "events_of mac (cs @ ds)"
  have dev: "device_of (run (init t0) (cs @ ds)) mac = Some d"
    using assms(2) by (rule read_device_later)
  note h = device_of_run_Some [OF dev]
  have "device_of (run (init t0) cs) mac \<noteq> None"
    using assms(2)
    by (auto simp: read_device_def get_plot_data_def device_of_def split: option.splits)
  then have ne0: "events_of mac cs \<noteq> []" by (simp add: device_of_run_None)
  then have ne: "?es \<noteq> []" by (simp add: events_of_append)
  have "hd (map fst ?es) \<le> last (map fst ?es)"
    using sorted_events_of [OF assms(1)] ne by (intro sorted_hd_le_last) simp_all
  then have le: "first_seen d \<le> last_seen d"
    using h ne by (simp add: hd_map last_map)
  then have "0 \<le> dwell_time d"
    using h by (simp add: total_seconds_def)
  moreover have "hd ?es = hd (events_of mac cs)" using ne0 by (simp add: events_of_append)
  ultimately show ?thesis using le h ne0 by simp
qed

theorem dwell_time_consistent_witness:
  "sorted (map call_time ([AddDevice 1000000 ''A'' (- 40) ''NEARBY'', AddStatistics 2000000 0 1 1 0,
        AddDevice 2000000 ''B'' (- 70) ''NEARBY''] @ [AddDevice 4500000 ''A'' (- 38) ''CONNECTED'']))
   \<and> read_device
       (objects (run (init 0) ([AddDevice 1000000 ''A'' (- 40) ''NEARBY'', AddStatistics 2000000 0 1 1 0,
        AddDevice 2000000 ''B'' (- 70) ''NEARBY''] @ [AddDevice 4500000 ''A'' (- 38) ''CONNECTED''])))
       (get_plot_data (run (init 0) [AddDevice 1000000 ''A'' (- 40) ''NEARBY'', AddStatistics 2000000 0 1 1 0,
        AddDevice 2000000 ''B'' (- 70) ''NEARBY''])) ''A''
     = Some \<lparr>first_seen = 1000000, last_seen = 4500000, rssi_history = [- 40, - 38],
         status = ''CONNECTED'', connect_time = Some 4500000, dwell_time = 7 / 2\<rparr>
   \<and> total_seconds (4500000 - 1000000) = 7 / 2"
  using dwell_time_consistent [of
      "[AddDevice 1000000 ''A'' (- 40) ''NEARBY'', AddStatistics 2000000 0 1 1 0,
        AddDevice 2000000 ''B'' (- 70) ''NEARBY'']" "[AddDevice 4500000 ''A'' (- 38) ''CONNECTED'']"
      0 "''A''"
      "\<lparr>first_seen = 1000000, last_seen = 4500000, rssi_history = [- 40, - 38],
         status = ''CONNECTED'', connect_time = Some 4500000, dwell_time = 7 / 2\<rparr>"]
  by (simp add: eval_defs read_device_def get_plot_data_def)

subsection \<open>The rolling window\<close>

lemma length_deque_append: "length xs \<le> m \<Longrightarrow> length (deque_append m xs x) \<le> m"
  by (simp add: deque_append_def Let_def)

lemma deque_append_full: "length xs = m \<Longrightarrow> 0 < m \<Longrightarrow> deque_append m xs x = tl xs @ [x]"
  by (cases xs) (simp_all add: deque_append_def Let_def)

lemma deque_append_room: "length xs < m \<Longrightarrow> deque_append m xs x = xs @ [x]"
  by (simp add: deque_append_def Let_def)

lemma deque_append_drop:
  "0 < m \<Longrightarrow> deque_append m (drop (length h - m) h) x = drop (length (h @ [x]) - m) (h @ [x])"
proof (cases "length h < m")
  case True
  then show ?thesis by (simp add: deque_append_def Let_def)
next
  case False
  assume "0 < m"
  with False have "length (drop (length h - m) h) = m" by simp
  then have "deque_append m (drop (length h - m) h) x = tl (drop (length h - m) h) @ [x]"
    using \<open>0 < m\<close> by (rule deque_append_full)
  also have "tl (drop (length h - m) h) = drop (Suc (length h - m)) h"
    by (simp add: drop_Suc tl_drop)
  also have "Suc (length h - m) = length (h @ [x]) - m" using False by simp
  finally show ?thesis using False \<open>0 < m\<close> by simp
qed

lemma windows_add_device:
  "timestamps (add_device s now mac rssi st) = timestamps s"
  "connected_counts (add_device s now mac rssi st) = connected_counts s"
  "nearby_counts (add_device s now mac rssi st) = nearby_counts s"
  "total_devices (add_device s now mac rssi st) = total_devices s"
  "all_timestamps (add_device s now mac rssi st) = all_timestamps s"
  by (simp_all add: add_device_def Let_def split: option.split)

lemma windows_add_statistics:
  "timestamps (snd (add_statistics s now c n p t)) = deque_append MAX_DATA_POINTS (timestamps s) now"
  "connected_counts (snd (add_statistics s now c n p t)) = deque_append MAX_DATA_POINTS (connected_counts s) c"
  "nearby_counts (snd (add_statistics s now c n p t)) = deque_append MAX_DATA_POINTS (nearby_counts s) n"
  "total_devices (snd (add_statistics s now c n p t)) = deque_append MAX_DATA_POINTS (total_devices s) (c + n)"
  by (rule add_statistics_fields)+

lemma all_timestamps_add_statistics:
  "all_timestamps (snd (add_statistics s now c n p t)) = all_timestamps s @ [now]"
  by (rule add_statistics_fields)

lemma window_lengths_run:
  "length (timestamps (run (init t0) cs)) \<le> MAX_DATA_POINTS \<and>
   length (connected_counts (run (init t0) cs)) \<le> MAX_DATA_POINTS \<and>
   length (nearby_counts (run (init t0) cs)) \<le> MAX_DATA_POINTS \<and>
   length (total_devices (run (init t0) cs)) \<le> MAX_DATA_POINTS"
proof (induction cs rule: rev_induct)
  case Nil
  show ?case by (simp add: run_def init_def)
next
  case (snoc c cs)
  then show ?case
    by (cases c)
      (simp_all add: run_snoc windows_add_device windows_add_statistics length_deque_append)
qed

lemma timestamps_run:
  "timestamps (run (init t0) cs) =
     drop (length (all_timestamps (run (init t0) cs)) - MAX_DATA_POINTS)
       (all_timestamps (run (init t0) cs))"
proof (induction cs rule: rev_induct)
  case Nil
  show ?case by (simp add: run_def init_def)
next
  case (snoc c cs)
  have m: "0 < MAX_DATA_POINTS" by (simp add: MAX_DATA_POINTS_def)
  show ?case
  proof (cases c)
    case (AddDevice now mac rssi st)
    show ?thesis
      by (simp only: AddDevice run_snoc apply_call.simps windows_add_device) (rule snoc.IH)
  next
    case (AddStatistics now cn nb p t)
    show ?thesis
      apply (simp only: AddStatistics run_snoc apply_call.simps windows_add_statistics
          all_timestamps_add_statistics)
      apply (subst snoc.IH)
      apply (rule deque_append_drop [OF m])
      done
  qed
qed

text \<open>
  C9. After any sequence of calls each of the four rolling windows holds at most
  \<open>MAX_DATA_POINTS = 120\<close> entries, and the window of timestamps is the last 120 (or
  fewer) of all the samples pushed, in their order. Pushing a sample onto a full window
  drops the oldest entry and appends the new one at the end.
\<close>

theorem rolling_window_bounded_fifo:
  "length (timestamps (run (init t0) cs)) \<le> MAX_DATA_POINTS
   \<and> length (connected_counts (run (init t0) cs)) \<le> MAX_DATA_POINTS
   \<and> length (nearby_counts (run (init t0) cs)) \<le> MAX_DATA_POINTS
   \<and> length (total_devices (run (init t0) cs)) \<le> MAX_DATA_POINTS
   \<and> MAX_DATA_POINTS = 120
   \<and> timestamps (run (init t0) cs) =
       drop (length (all_timestamps (run (init t0) cs)) - MAX_DATA_POINTS)
         (all_timestamps (run (init t0) cs))
   \<and> (length (timestamps s) = MAX_DATA_POINTS \<longrightarrow>
        timestamps (snd (add_statistics s now c n p t)) = tl (timestamps s) @ [now])
   \<and> (length (connected_counts s) = MAX_DATA_POINTS \<longrightarrow>
        connected_counts (snd (add_statistics s now c n p t)) = tl (connected_counts s) @ [c])
   \<and> (length (nearby_counts s) = MAX_DATA_POINTS \<longrightarrow>
        nearby_counts (snd (add_statistics s now c n p t)) = tl (nearby_counts s) @ [n])
   \<and> (length (total_devices s) = MAX_DATA_POINTS \<longrightarrow>
        total_devices (snd (add_statistics s now c n p t)) = tl (total_devices s) @ [c + n])"
proof -
  have m: "0 < MAX_DATA_POINTS" by (simp add: MAX_DATA_POINTS_def)
  have full: "length xs = MAX_DATA_POINTS \<Longrightarrow> deque_append MAX_DATA_POINTS xs x = tl xs @ [x]"
    for xs :: "'a list" and x
    by (simp add: deque_append_full m)
  show ?thesis
    using window_lengths_run [of t0 cs] timestamps_run [of t0 cs]
    by (simp add: windows_add_statistics full) (simp add: MAX_DATA_POINTS_def)
qed

lemma run_replicate_stats:
  "length (timestamps s) + k \<le> MAX_DATA_POINTS \<Longrightarrow> length (connected_counts s) + k \<le> MAX_DATA_POINTS \<Longrightarrow>
   length (nearby_counts s) + k \<le> MAX_DATA_POINTS \<Longrightarrow> length (total_devices s) + k \<le> MAX_DATA_POINTS \<Longrightarrow>
   timestamps (run s (replicate k (AddStatistics now c n p t))) = timestamps s @ replicate k now \<and>
   connected_counts (run s (replicate k (AddStatistics now c n p t))) = connected_counts s @ replicate k c \<and>
   nearby_counts (run s (replicate k (AddStatistics now c n p t))) = nearby_counts s @ replicate k n \<and>
   total_devices (run s (replicate k (AddStatistics now c n p t))) = total_devices s @ replicate k (c + n)"
proof (induction k)
  case 0
  show ?case by (simp add: run_def)
next
  case (Suc k)
  have e: "replicate (Suc k) x = replicate k x @ [x]" for x :: 'a
    by (simp add: replicate_append_same)
  let ?r = "run s (replicate k (AddStatistics now c n p t))"
  have ih: "timestamps ?r = timestamps s @ replicate k now"
    "connected_counts ?r = connected_counts s @ replicate k c"
    "nearby_counts ?r = nearby_counts s @ replicate k n"
    "total_devices ?r = total_devices s @ replicate k (c + n)"
    using Suc by simp_all
  have room: "length (timestamps ?r) < MAX_DATA_POINTS" "length (connected_counts ?r) < MAX_DATA_POINTS"
    "length (nearby_counts ?r) < MAX_DATA_POINTS" "length (total_devices ?r) < MAX_DATA_POINTS"
    using Suc.prems by (simp_all add: ih)
  have step: "timestamps (apply_call ?r (AddStatistics now c n p t)) = timestamps ?r @ [now]"
    "connected_counts (apply_call ?r (AddStatistics now c n p t)) = connected_counts ?r @ [c]"
    "nearby_counts (apply_call ?r (AddStatistics now c n p t)) = nearby_counts ?r @ [n]"
    "total_devices (apply_call ?r (AddStatistics now c n p t)) = total_devices ?r @ [c + n]"
    using room by (simp_all add: windows_add_statistics deque_append_room)
  show ?case
    by (simp only: e run_snoc step ih append_assoc)
qed

theorem rolling_window_bounded_fifo_witness:
  "length (timestamps (run (init 0) (replicate 120 (AddStatistics 5 3 7 50 10)))) = MAX_DATA_POINTS
   \<and> timestamps (snd (add_statistics (run (init 0) (replicate 120 (AddStatistics 5 3 7 50 10))) 9 4 8 60 11))
      = replicate 119 5 @ [9]
   \<and> connected_counts (snd (add_statistics (run (init 0) (replicate 120 (AddStatistics 5 3 7 50 10))) 9 4 8 60 11))
      = replicate 119 3 @ [4]
   \<and> nearby_counts (snd (add_statistics (run (init 0) (replicate 120 (AddStatistics 5 3 7 50 10))) 9 4 8 60 11))
      = replicate 119 7 @ [8]
   \<and> total_devices (snd (add_statistics (run (init 0) (replicate 120 (AddStatistics 5 3 7 50 10))) 9 4 8 60 11))
      = replicate 119 10 @ [12]"
proof -
  have r: "timestamps (run (init 0) (replicate 120 (AddStatistics 5 3 7 50 10))) = replicate 120 5 \<and>
      connected_counts (run (init 0) (replicate 120 (AddStatistics 5 3 7 50 10))) = replicate 120 3 \<and>
      nearby_counts (run (init 0) (replicate 120 (AddStatistics 5 3 7 50 10))) = replicate 120 7 \<and>
      total_devices (run (init 0) (replicate 120 (AddStatistics 5 3 7 50 10))) = replicate 120 10"
    using run_replicate_stats [of "init 0" 120 5 3 7 50 10]
    by (simp add: init_def MAX_DATA_POINTS_def)
  show ?thesis
    using rolling_window_bounded_fifo [of 0 "[]"
        "run (init 0) (replicate 120 (AddStatistics 5 3 7 50 10))" 9 4 8 60 11]
    by (simp add: r MAX_DATA_POINTS_def)
qed

subsection \<open>Parsing device lines\<close>

text \<open>The equations that evaluate the parsers on concrete lines.\<close>

lemmas parse_defs = device_groups_def stats_groups_def match_mac_def match_rssi_def match_status_def
  match_count_def match_run_def startswith_def startswith_ignorecase_def upper_def upper_char_def
  ascii_lowercase_def ascii_uppercase_def digits_def is_mac_char_def is_digit_def is_word_def
  py_int_def int_max_str_digits_def int_of_digits_def digit_value_def latin1_word_def

lemma read_line_device_only:
  assumes "line \<noteq> []" "contains line ''[DEVICE]''" "\<not> contains line ''[STATS]''"
    and "device_groups line = Some (m, r, st)" and "py_int r = Inr rssi"
  shows "read_line s (line, now1, now2) = add_device s now1 (upper m) rssi st"
  using assms by (simp add: read_line_def parse_device_line_def parse_stats_line_def)

lemma scenario_line1:
  "read_line s (''[DEVICE] MAC:AA:BB:CC:DD:EE:01 | RSSI:-40 | STATUS:NEARBY'', now1, now2) =
     add_device s now1 ''AA:BB:CC:DD:EE:01'' (- 40) ''NEARBY''"
  by (subst read_line_device_only [where m = "''AA:BB:CC:DD:EE:01''" and r = "''-40''"
        and st = "''NEARBY''" and rssi = "- 40"])
    (simp_all add: parse_defs)

lemma scenario_line2:
  "read_line s (''[DEVICE] MAC:AA:BB:CC:DD:EE:01 | RSSI:-38 | STATUS:CONNECTED'', now1, now2) =
     add_device s now1 ''AA:BB:CC:DD:EE:01'' (- 38) ''CONNECTED''"
  by (subst read_line_device_only [where m = "''AA:BB:CC:DD:EE:01''" and r = "''-38''"
        and st = "''CONNECTED''" and rssi = "- 38"])
    (simp_all add: parse_defs)

text \<open>
  C8. From the initial state, the NEARBY line followed by the CONNECTED line of the same
  MAC leave exactly one device, whose record has status CONNECTED, signal history
  \<open>[-40, -38]\<close> and a connect time (the clock reading of the second line).
\<close>

theorem scenario_nearby_then_connected:
  "devices_by_mac (serial_reader (init t0)
      [(''[DEVICE] MAC:AA:BB:CC:DD:EE:01 | RSSI:-40 | STATUS:NEARBY'', t1, u1),
       (''[DEVICE] MAC:AA:BB:CC:DD:EE:01 | RSSI:-38 | STATUS:CONNECTED'', t2, u2)])
     = [(''AA:BB:CC:DD:EE:01'', 0)]
   \<and> pd_total_unique (get_plot_data (serial_reader (init t0)
      [(''[DEVICE] MAC:AA:BB:CC:DD:EE:01 | RSSI:-40 | STATUS:NEARBY'', t1, u1),
       (''[DEVICE] MAC:AA:BB:CC:DD:EE:01 | RSSI:-38 | STATUS:CONNECTED'', t2, u2)])) = 1
   \<and> device_of (serial_reader (init t0)
      [(''[DEVICE] MAC:AA:BB:CC:DD:EE:01 | RSSI:-40 | STATUS:NEARBY'', t1, u1),
       (''[DEVICE] MAC:AA:BB:CC:DD:EE:01 | RSSI:-38 | STATUS:CONNECTED'', t2, u2)])
      ''AA:BB:CC:DD:EE:01''
     = Some \<lparr>first_seen = t1, last_seen = t2, rssi_history = [- 40, - 38],
         status = ''CONNECTED'', connect_time = Some t2,
         dwell_time = total_seconds (t2 - t1)\<rparr>"
  by (simp add: serial_reader_def scenario_line1 scenario_line2 get_plot_data_def
      add_device_def Let_def dict_get_def device_of_def init_def new_device_def update_device_def
      CONNECTED_def)

subsection \<open>Snapshots\<close>

text \<open>
  C1. The dictionary returned by \<open>get_plot_data\<close> refers to the per-device records of the
  session: after a device has been seen once and a snapshot taken, a second event of the
  device changes what the snapshot shows for it (signal history, status, connect time,
  last seen, dwell time), while the snapshot's own lists and hourly counts stay as they
  were.
\<close>

theorem snapshot_shares_device_records:
  "read_device (objects (add_device (init 0) 1000000 ''AA:BB:CC:DD:EE:01'' (- 40) ''NEARBY''))
       (get_plot_data (add_device (init 0) 1000000 ''AA:BB:CC:DD:EE:01'' (- 40) ''NEARBY''))
       ''AA:BB:CC:DD:EE:01''
     = Some \<lparr>first_seen = 1000000, last_seen = 1000000, rssi_history = [- 40],
         status = ''NEARBY'', connect_time = None, dwell_time = 0\<rparr>
   \<and> read_device
       (objects (add_device (add_device (init 0) 1000000 ''AA:BB:CC:DD:EE:01'' (- 40) ''NEARBY'')
          3000000 ''AA:BB:CC:DD:EE:01'' (- 38) ''CONNECTED''))
       (get_plot_data (add_device (init 0) 1000000 ''AA:BB:CC:DD:EE:01'' (- 40) ''NEARBY''))
       ''AA:BB:CC:DD:EE:01''
     = Some \<lparr>first_seen = 1000000, last_seen = 3000000, rssi_history = [- 40, - 38],
         status = ''CONNECTED'', connect_time = Some 3000000, dwell_time = 2\<rparr>
   \<and> pd_hourly_stats (get_plot_data (add_device (init 0) 1000000 ''AA:BB:CC:DD:EE:01'' (- 40) ''NEARBY''))
     = [(0, 1)]
   \<and> hourly_stats (add_device (add_device (init 0) 1000000 ''AA:BB:CC:DD:EE:01'' (- 40) ''NEARBY'')
          3000000 ''AA:BB:CC:DD:EE:01'' (- 38) ''CONNECTED'')
     = [(0, 2)]"
  by (simp add: eval_defs read_device_def get_plot_data_def)

subsection \<open>The status token\<close>

lemma re_search_here: "m s = Some g \<Longrightarrow> re_search m s = Some g"
  by (cases s) simp_all

lemma re_search_skip:
  "(\<And>i. i < length pre \<Longrightarrow> m (drop i (pre @ suf)) = None) \<Longrightarrow>
   re_search m (pre @ suf) = re_search m suf"
proof (induction pre)
  case Nil
  show ?case by simp
next
  case (Cons c pre)
  have 0: "m (c # pre @ suf) = None" using Cons.prems [of 0] by simp
  have "re_search m (pre @ suf) = re_search m suf"
  proof (rule Cons.IH)
    fix i assume "i < length pre"
    then show "m (drop i (pre @ suf)) = None" using Cons.prems [of "Suc i"] by simp
  qed
  then show ?case by (simp add: 0)
qed

lemma contains_at: "i \<le> length s \<Longrightarrow> startswith (drop i s) p \<Longrightarrow> contains s p"
proof (induction s arbitrary: i)
  case Nil
  then show ?case by (simp add: startswith_def)
next
  case (Cons c cs)
  then show ?case by (cases i) auto
qed

lemma take_before_last:
  assumes "a \<noteq> []"
  shows "take (Suc (length l)) (a @ l @ x # rest) = take (Suc (length l)) (a @ l)"
proof -
  have "Suc (length l) - length a \<le> length l" using assms by (cases a) simp_all
  then have "take (Suc (length l) - length a) (l @ x # rest) = take (Suc (length l) - length a) l"
    by simp
  then show ?thesis by (simp only: take_append)
qed

lemma label_not_earlier_gen:
  assumes "\<not> contains (pre @ l) (l @ [x])" and "i < length pre"
  shows "\<not> startswith (drop i (pre @ (l @ [x]) @ rest)) (l @ [x])"
proof
  assume "startswith (drop i (pre @ (l @ [x]) @ rest)) (l @ [x])"
  then have t: "take (Suc (length l)) (drop i pre @ l @ x # rest) = l @ [x]"
    using assms(2) by (simp add: startswith_def)
  have ne: "drop i pre \<noteq> []" using assms(2) by simp
  have "take (Suc (length l)) (drop i pre @ l) = l @ [x]"
    using t by (simp only: take_before_last [OF ne])
  then have "startswith (drop i (pre @ l)) (l @ [x])"
    using assms(2) by (simp add: startswith_def)
  moreover have "i \<le> length (pre @ l)" using assms(2) by simp
  ultimately have "contains (pre @ l) (l @ [x])" by (rule contains_at [rotated])
  with assms(1) show False by contradiction
qed

lemma label_not_earlier:
  assumes "\<not> contains (pre @ ''STATUS'') ''STATUS:''" and "i < length pre"
  shows "\<not> startswith (drop i (pre @ ''STATUS:'' @ rest)) ''STATUS:''"
  using label_not_earlier_gen [of pre "''STATUS''" "CHR '':''" i rest] assms by simp

lemma takeWhile_token:
  assumes "list_all is_word tok" and "post = [] \<or> \<not> is_word (hd post)"
  shows "takeWhile is_word (tok @ post) = tok"
proof -
  have "takeWhile is_word post = []" using assms(2) by (cases post) auto
  then show ?thesis using assms(1) by (simp add: list_all_iff takeWhile_append2)
qed

lemma re_search_status:
  assumes "\<not> contains (pre @ ''STATUS'') ''STATUS:''" and "tok \<noteq> []" and "list_all is_word tok"
    and "post = [] \<or> \<not> is_word (hd post)"
  shows "re_search match_status (pre @ ''STATUS:'' @ tok @ post) = Some tok"
proof -
  have "match_status (drop i (pre @ ''STATUS:'' @ tok @ post)) = None" if "i < length pre" for i
    using label_not_earlier [OF assms(1) that, of "tok @ post"]
    by (simp add: match_status_def match_run_def)
  then have "re_search match_status (pre @ ''STATUS:'' @ tok @ post)
      = re_search match_status (''STATUS:'' @ tok @ post)"
    by (rule re_search_skip)
  moreover have "match_status (''STATUS:'' @ tok @ post) = Some tok"
    using assms(2) takeWhile_token [OF assms(3,4)]
    by (simp add: match_status_def match_run_def startswith_def)
  ultimately show ?thesis by (simp only: re_search_here)
qed

text \<open>
  C10. In a device line whose first \<open>STATUS:\<close> label is followed by a token of word
  characters (any non-empty run of them, ended by the end of the line or by a character that
  is not one), the parser takes exactly that token as the status, and \<open>add_device\<close> stores
  it as the record's status as it stands. Only the exact string \<open>CONNECTED\<close> counts as
  connected: with any other token the event leaves \<open>connect_time\<close> as it was, \<open>None\<close> for
  a new device; with \<open>CONNECTED\<close> it is set when the device is new or was not CONNECTED.
\<close>

theorem status_token_verbatim:
  assumes "line = pre @ ''STATUS:'' @ tok @ post"
    and "\<not> contains (pre @ ''STATUS'') ''STATUS:''"
    and "tok \<noteq> []" and "list_all is_word tok"
    and "post = [] \<or> \<not> is_word (hd post)"
    and "contains line ''[DEVICE]''"
    and "re_search match_mac line = Some m"
    and "re_search match_rssi line = Some r" and "py_int r = Inr rssi"
  shows "parse_device_line s now line = (True, add_device s now (upper m) rssi tok)
   \<and> (\<exists>d'. device_of (add_device (run (init t0) cs) now (upper m) rssi tok) (upper m) = Some d'
        \<and> status d' = tok
        \<and> (tok \<noteq> ''CONNECTED'' \<longrightarrow>
             connect_time d' =
               (case device_of (run (init t0) cs) (upper m) of None \<Rightarrow> None
                | Some d \<Rightarrow> connect_time d))
        \<and> (tok = ''CONNECTED'' \<longrightarrow>
             connect_time d' =
               (case device_of (run (init t0) cs) (upper m) of None \<Rightarrow> Some now
                | Some d \<Rightarrow> if status d \<noteq> ''CONNECTED'' then Some now else connect_time d)))"
proof -
  have st: "re_search match_status line = Some tok"
    unfolding assms(1) using assms(2-5) by (rule re_search_status)
  have p: "parse_device_line s now line = (True, add_device s now (upper m) rssi tok)"
    using assms(6-9) st by (simp add: parse_device_line_def device_groups_def)
  have w: "wf (run (init t0) cs)" by (simp add: wf_run wf_init)
  have e: "\<exists>d'. device_of (add_device (run (init t0) cs) now (upper m) rssi tok) (upper m) = Some d'
        \<and> status d' = tok
        \<and> (tok \<noteq> ''CONNECTED'' \<longrightarrow>
             connect_time d' =
               (case device_of (run (init t0) cs) (upper m) of None \<Rightarrow> None
                | Some d \<Rightarrow> connect_time d))
        \<and> (tok = ''CONNECTED'' \<longrightarrow>
             connect_time d' =
               (case device_of (run (init t0) cs) (upper m) of None \<Rightarrow> Some now
                | Some d \<Rightarrow> if status d \<noteq> ''CONNECTED'' then Some now else connect_time d))"
    by (simp only: device_of_add_device [OF w])
      (simp add: new_device_def update_device_def CONNECTED_def split: option.split)
  show ?thesis
    by (intro conjI p e)
qed

theorem status_token_verbatim_witness:
  "\<not> contains (''[DEVICE] MAC:aa:bb:cc:dd:ee:01 | RSSI:-40 | '' @ ''STATUS'') ''STATUS:''
   \<and> ''CONNECTED'' @ [CHR 0xE9] \<noteq> [] \<and> list_all is_word (''CONNECTED'' @ [CHR 0xE9])
   \<and> \<not> is_word (hd '' | IP:192.168.4.2'')
   \<and> contains (''[DEVICE] MAC:aa:bb:cc:dd:ee:01 | RSSI:-40 | '' @ ''STATUS:''
        @ (''CONNECTED'' @ [CHR 0xE9]) @ '' | IP:192.168.4.2'') ''[DEVICE]''
   \<and> re_search match_mac (''[DEVICE] MAC:aa:bb:cc:dd:ee:01 | RSSI:-40 | '' @ ''STATUS:''
        @ (''CONNECTED'' @ [CHR 0xE9]) @ '' | IP:192.168.4.2'') = Some ''aa:bb:cc:dd:ee:01''
   \<and> re_search match_rssi (''[DEVICE] MAC:aa:bb:cc:dd:ee:01 | RSSI:-40 | '' @ ''STATUS:''
        @ (''CONNECTED'' @ [CHR 0xE9]) @ '' | IP:192.168.4.2'') = Some ''-40''
   \<and> py_int ''-40'' = Inr (- 40)
   \<and> parse_device_line (init 0) 7
        (''[DEVICE] MAC:aa:bb:cc:dd:ee:01 | RSSI:-40 | '' @ ''STATUS:''
        @ (''CONNECTED'' @ [CHR 0xE9]) @ '' | IP:192.168.4.2'')
       = (True, add_device (init 0) 7 ''AA:BB:CC:DD:EE:01'' (- 40) (''CONNECTED'' @ [CHR 0xE9]))
   \<and> device_of (add_device (run (init 0) []) 7 ''AA:BB:CC:DD:EE:01'' (- 40) (''CONNECTED'' @ [CHR 0xE9]))
        ''AA:BB:CC:DD:EE:01''
       = Some \<lparr>first_seen = 7, last_seen = 7, rssi_history = [- 40],
           status = ''CONNECTED'' @ [CHR 0xE9], connect_time = None, dwell_time = 0\<rparr>"
proof -
  let ?pre = "''[DEVICE] MAC:aa:bb:cc:dd:ee:01 | RSSI:-40 | ''"
  let ?tok = "''CONNECTED'' @ [CHR 0xE9]"
  let ?post = "'' | IP:192.168.4.2''"
  let ?line = "?pre @ ''STATUS:'' @ ?tok @ ?post"
  have h2: "\<not> contains (?pre @ ''STATUS'') ''STATUS:''"
    by (simp add: startswith_def)
  have h3: "?tok \<noteq> []" by simp
  have h4: "list_all is_word ?tok"
    by (simp add: is_word_def latin1_word_def ascii_lowercase_def ascii_uppercase_def digits_def)
  have h5': "\<not> is_word (hd ?post)"
    by (simp add: is_word_def latin1_word_def ascii_lowercase_def ascii_uppercase_def digits_def)
  then have h5: "?post = [] \<or> \<not> is_word (hd ?post)" by (rule disjI2)
  have h6: "contains ?line ''[DEVICE]''" by (simp add: startswith_def)
  have h7: "re_search match_mac ?line = Some ''aa:bb:cc:dd:ee:01''" by (simp add: parse_defs)
  have h8: "re_search match_rssi ?line = Some ''-40''" by (simp add: parse_defs)
  have h9: "py_int ''-40'' = Inr (- 40)" by (simp add: parse_defs)
  have u: "upper ''aa:bb:cc:dd:ee:01'' = ''AA:BB:CC:DD:EE:01''" by (simp add: parse_defs)
  note T = status_token_verbatim [OF refl h2 h3 h4 h5 h6 h7 h8 h9, of "init 0" 7 0 "[]"]
  have p: "parse_device_line (init 0) 7 ?line
       = (True, add_device (init 0) 7 ''AA:BB:CC:DD:EE:01'' (- 40) ?tok)"
    using T by (simp only: u)
  have d: "device_of (add_device (run (init 0) []) 7 ''AA:BB:CC:DD:EE:01'' (- 40) ?tok)
        ''AA:BB:CC:DD:EE:01''
       = Some \<lparr>first_seen = 7, last_seen = 7, rssi_history = [- 40],
           status = ?tok, connect_time = None, dwell_time = 0\<rparr>"
    by (simp add: eval_defs)
  show ?thesis
    by (intro conjI h2 h3 h4 h5' h6 h7 h8 h9 p d)
qed

subsection \<open>Unique devices\<close>

lemma keys_parse_stats_line:
  "devices_by_mac (snd (parse_stats_line s now line)) = devices_by_mac s"
proof -
  have "devices_by_mac (snd (case add_statistics s now c n p t of (exc, s') \<Rightarrow> (exc = None, s')))
      = devices_by_mac s" for c n p t
    using keys_add_statistics [of s now c n p t]
    by (cases "add_statistics s now c n p t") simp
  then show ?thesis
    by (simp add: parse_stats_line_def Let_def split: option.split prod.split sum.split)
qed

lemma keys_parse_device_line:
  "line \<noteq> [] \<Longrightarrow>
   map fst (devices_by_mac (snd (parse_device_line s now line))) =
     (case mac_field line of
        None \<Rightarrow> map fst (devices_by_mac s)
      | Some m \<Rightarrow>
          if upper m \<in> set (map fst (devices_by_mac s)) then map fst (devices_by_mac s)
          else map fst (devices_by_mac s) @ [upper m])"
  by (simp add: parse_device_line_def mac_field_def keys_add_device
      split: option.split prod.split sum.split)

lemma keys_read_line:
  "map fst (devices_by_mac (read_line s inp)) =
     (case mac_field (fst inp) of
        None \<Rightarrow> map fst (devices_by_mac s)
      | Some m \<Rightarrow>
          if upper m \<in> set (map fst (devices_by_mac s)) then map fst (devices_by_mac s)
          else map fst (devices_by_mac s) @ [upper m])"
proof (cases inp)
  case (fields line now1 now2)
  show ?thesis
  proof (cases "line = []")
    case True
    then show ?thesis by (simp add: fields read_line_def mac_field_def)
  next
    case False
    have "read_line s inp = snd (parse_stats_line (snd (parse_device_line s now1 line)) now2 line)"
      using False by (simp add: fields read_line_def split: prod.split)
    then show ?thesis
      by (simp only: keys_parse_stats_line keys_parse_device_line [OF False] fields fst_conv)
  qed
qed

lemma mac_fields_Cons:
  "mac_fields (inp # inps) =
     (case mac_field (fst inp) of None \<Rightarrow> mac_fields inps | Some m \<Rightarrow> m # mac_fields inps)"
  by (simp add: mac_fields_def split: option.split)

lemma keys_serial_reader:
  "distinct (map fst (devices_by_mac s)) \<Longrightarrow>
   distinct (map fst (devices_by_mac (serial_reader s inps))) \<and>
   set (map fst (devices_by_mac (serial_reader s inps))) =
     set (map fst (devices_by_mac s)) \<union> set (map upper (mac_fields inps))"
proof (induction inps arbitrary: s)
  case Nil
  then show ?case by (simp add: serial_reader_def mac_fields_def)
next
  case (Cons inp inps)
  have d: "distinct (map fst (devices_by_mac (read_line s inp)))"
    using Cons.prems by (simp add: keys_read_line split: option.split)
  have r: "serial_reader s (inp # inps) = serial_reader (read_line s inp) inps"
    by (simp add: serial_reader_def)
  have k: "set (map fst (devices_by_mac (read_line s inp))) \<union> set (map upper (mac_fields inps)) =
      set (map fst (devices_by_mac s)) \<union> set (map upper (mac_fields (inp # inps)))"
    by (auto simp: keys_read_line mac_fields_Cons split: option.split)
  show ?case
    using Cons.IH [OF d] by (simp only: r k) 
qed

lemma keys_init: "devices_by_mac (init t0) = []"
  by (simp add: init_def)

lemma coalesce_example:
  "mac_fields [(''[DEVICE] MAC:aa:bb:cc:dd:ee:01 | RSSI:-40 | STATUS:NEARBY'', t1, u1),
               (''[DEVICE] MAC:AA:BB:CC:DD:EE:01 | RSSI:-38 | STATUS:NEARBY'', t2, u2)]
     = [''aa:bb:cc:dd:ee:01'', ''AA:BB:CC:DD:EE:01'']"
  by (simp add: mac_fields_def mac_field_def parse_defs)

text \<open>
  C4. After any sequence of lines fed to the reader from the initial state, the device
  table has one record per distinct uppercased MAC field among the lines applied as
  device events, and \<open>total_unique\<close> of a snapshot is their number; two lines whose MAC
  fields differ only in letter case give one record. No step removes a key: not a line
  read, not \<open>add_device\<close>, not \<open>add_statistics\<close>.
\<close>

theorem unique_devices_count:
  "distinct (map fst (devices_by_mac (serial_reader (init t0) inps)))
   \<and> set (map fst (devices_by_mac (serial_reader (init t0) inps))) = set (map upper (mac_fields inps))
   \<and> length (devices_by_mac (serial_reader (init t0) inps)) = card (set (map upper (mac_fields inps)))
   \<and> pd_total_unique (get_plot_data (serial_reader (init t0) inps))
       = card (set (map upper (mac_fields inps)))
   \<and> length (devices_by_mac (serial_reader (init t0)
        [(''[DEVICE] MAC:aa:bb:cc:dd:ee:01 | RSSI:-40 | STATUS:NEARBY'', t1, u1),
         (''[DEVICE] MAC:AA:BB:CC:DD:EE:01 | RSSI:-38 | STATUS:NEARBY'', t2, u2)])) = 1
   \<and> set (map fst (devices_by_mac s)) \<subseteq> set (map fst (devices_by_mac (read_line s inp)))
   \<and> set (map fst (devices_by_mac s)) \<subseteq> set (map fst (devices_by_mac (add_device s now mac rssi st)))
   \<and> devices_by_mac (snd (add_statistics s now c n p t)) = devices_by_mac s"
proof -
  have k: "distinct (map fst (devices_by_mac (serial_reader (init t0) inps)))"
    "set (map fst (devices_by_mac (serial_reader (init t0) inps))) = set (map upper (mac_fields inps))"
    for inps
    using keys_serial_reader [of "init t0" inps] by (simp_all add: keys_init)
  have len: "length (devices_by_mac (serial_reader (init t0) inps)) = card (set (map upper (mac_fields inps)))"
    for inps
    using distinct_card [OF k(1) [of inps]] by (simp only: k(2) length_map)
  have ex: "length (devices_by_mac (serial_reader (init t0)
        [(''[DEVICE] MAC:aa:bb:cc:dd:ee:01 | RSSI:-40 | STATUS:NEARBY'', t1, u1),
         (''[DEVICE] MAC:AA:BB:CC:DD:EE:01 | RSSI:-38 | STATUS:NEARBY'', t2, u2)])) = 1"
  proof -
    have "card (set (map upper
        (mac_fields [(''[DEVICE] MAC:aa:bb:cc:dd:ee:01 | RSSI:-40 | STATUS:NEARBY'', t1, u1),
         (''[DEVICE] MAC:AA:BB:CC:DD:EE:01 | RSSI:-38 | STATUS:NEARBY'', t2, u2)]))) = 1"
      by (simp add: coalesce_example) (simp add: parse_defs)
    then show ?thesis by (simp only: len)
  qed
  have mono1: "set (map fst (devices_by_mac s)) \<subseteq> set (map fst (devices_by_mac (read_line s inp)))"
    by (auto simp: keys_read_line split: option.split)
  have mono2: "set (map fst (devices_by_mac s)) \<subseteq> set (map fst (devices_by_mac (add_device s now mac rssi st)))"
    by (auto simp: keys_add_device)
  have tu: "pd_total_unique (get_plot_data (serial_reader (init t0) inps))
       = card (set (map upper (mac_fields inps)))"
    by (simp add: get_plot_data_def len)
  show ?thesis
    by (intro conjI k len tu ex mono1 mono2 keys_add_statistics)
qed

subsection \<open>The report\<close>

lemma py_max_from_first:
  fixes b :: "int \<times> int"
  assumes "sorted_wrt (<) (map fst xs)" and "\<forall>e\<in>set xs. fst b < fst e"
  shows "py_max_from snd b xs \<in> set (b # xs) \<and>
     (\<forall>e\<in>set (b # xs). snd e \<le> snd (py_max_from snd b xs) \<and>
        (snd e = snd (py_max_from snd b xs) \<longrightarrow> fst (py_max_from snd b xs) \<le> fst e))"
  using assms
proof (induction xs arbitrary: b)
  case Nil
  show ?case by simp
next
  case (Cons x xs)
  let ?b = "if snd b < snd x then x else b"
  let ?r = "py_max_from snd ?b xs"
  have s: "sorted_wrt (<) (map fst xs)" using Cons.prems(1) by simp
  have lt: "\<forall>e\<in>set xs. fst ?b < fst e" using Cons.prems by auto
  note ih = Cons.IH [OF s lt]
  have r: "py_max_from snd b (x # xs) = ?r" by simp
  have bx: "fst b < fst x" using Cons.prems(2) by simp
  have mem: "?r \<in> set (b # x # xs)" using ih by (auto split: if_splits)
  have best: "snd ?b \<le> snd ?r \<and> (snd ?b = snd ?r \<longrightarrow> fst ?r \<le> fst ?b)"
    using ih by simp
  have rest: "\<forall>e\<in>set xs. snd e \<le> snd ?r \<and> (snd e = snd ?r \<longrightarrow> fst ?r \<le> fst e)"
    using ih by simp
  have b: "snd b \<le> snd ?r \<and> (snd b = snd ?r \<longrightarrow> fst ?r \<le> fst b)"
    using best by (auto split: if_splits)
  have x: "snd x \<le> snd ?r \<and> (snd x = snd ?r \<longrightarrow> fst ?r \<le> fst x)"
    using best bx by (auto split: if_splits)
  show ?case
    unfolding r using mem b x rest by simp
qed

lemma spec_peak_hour_first:
  assumes "sorted_wrt (<) (map fst hs)"
  shows "fst (peak_hour_of hs) = spec_peak_hour hs"
proof (cases hs)
  case Nil
  then show ?thesis by (simp add: peak_hour_of_def spec_peak_hour_def)
next
  case (Cons x xs)
  let ?r = "py_max_from snd x xs"
  have "sorted_wrt (<) (map fst xs)" "\<forall>e\<in>set xs. fst x < fst e"
    using assms Cons by auto
  note m = py_max_from_first [OF this]
  have mem: "?r \<in> set hs" using m unfolding Cons by blast
  have le: "\<And>e. e \<in> set hs \<Longrightarrow> snd e \<le> snd ?r" using m unfolding Cons by blast
  have tie: "\<And>e. e \<in> set hs \<Longrightarrow> snd e = snd ?r \<Longrightarrow> fst ?r \<le> fst e"
    using m unfolding Cons by blast
  have mx: "Max (set (map snd hs)) = snd ?r"
    using mem le by (intro Max_eqI) auto
  have mn: "Min (set (map fst (filter (\<lambda>p. snd p = snd ?r) hs))) = fst ?r"
    using mem tie by (intro Min_eqI) auto
  have ne: "hs \<noteq> []" using Cons by simp
  have ph: "fst (peak_hour_of hs) = Some (fst ?r)"
    by (simp add: peak_hour_of_def Cons Let_def)
  have sp: "spec_peak_hour hs = Some (Min (set (map fst (filter (\<lambda>p. snd p = snd ?r) hs))))"
    by (simp only: spec_peak_hour_def mx ne if_False)
  show ?thesis by (simp only: ph sp mn)
qed

lemma keys_bump_hour:
  "map fst (bump_hour hs k) = (if k \<in> set (map fst hs) then map fst hs else map fst hs @ [k])"
  by (simp add: bump_hour_def keys_dict_set)

lemma hourly_stats_add_device:
  "hourly_stats (add_device s now mac rssi st) = bump_hour (hourly_stats s) (hour_key now)"
  by (simp add: add_device_def Let_def split: option.split)

lemma hourly_stats_add_statistics:
  "hourly_stats (snd (add_statistics s now c n p t)) = hourly_stats s"
  by (rule add_statistics_fields)

lemma hour_key_mono: "a \<le> b \<Longrightarrow> hour_key a \<le> hour_key b"
  by (simp add: hour_key_def zdiv_mono1)

lemma hourly_keys_sorted:
  "sorted (map call_time cs) \<Longrightarrow>
   sorted_wrt (<) (map fst (hourly_stats (run (init t0) cs))) \<and>
   set (map fst (hourly_stats (run (init t0) cs))) \<subseteq> hour_key ` set (map call_time cs)"
proof (induction cs rule: rev_induct)
  case Nil
  show ?case by (simp add: run_def init_def)
next
  case (snoc c cs)
  let ?hs = "hourly_stats (run (init t0) cs)"
  have srt: "sorted (map call_time cs)" and le: "\<forall>t\<in>set (map call_time cs). t \<le> call_time c"
    using snoc.prems by (auto simp: sorted_append)
  note ih = snoc.IH [OF srt]
  show ?case
  proof (cases c)
    case (AddStatistics now cn nb p t)
    with ih show ?thesis
      by (auto simp: run_snoc hourly_stats_add_statistics)
  next
    case (AddDevice now mac rssi st)
    have "\<forall>k\<in>set (map fst ?hs). k \<le> hour_key now"
    proof
      fix k assume "k \<in> set (map fst ?hs)"
      moreover have "set (map fst ?hs) \<subseteq> hour_key ` set (map call_time cs)" using ih by simp
      ultimately have "k \<in> hour_key ` set (map call_time cs)" by blast
      then obtain t where "t \<in> set (map call_time cs)" "k = hour_key t" by blast
      then show "k \<le> hour_key now" using le AddDevice by (auto intro: hour_key_mono)
    qed
    then have "hour_key now \<notin> set (map fst ?hs) \<Longrightarrow> \<forall>k\<in>set (map fst ?hs). k < hour_key now"
      by (metis order_le_less)
    then show ?thesis
      using ih AddDevice
      by (auto simp: run_snoc hourly_stats_add_device keys_bump_hour sorted_wrt_append)
  qed
qed

lemma py_max_from_find:
  fixes key :: "'a \<Rightarrow> 'k::linorder"
  shows "(\<forall>e\<in>set (b # xs). key e \<le> key (py_max_from key b xs)) \<and>
     find (\<lambda>p. key p = key (py_max_from key b xs)) (b # xs) = Some (py_max_from key b xs)"
proof (induction xs arbitrary: b)
  case Nil
  show ?case by simp
next
  case (Cons x xs)
  show ?case
  proof (cases "key b < key x")
    case True
    define r where "r = py_max_from key x xs"
    have r: "py_max_from key b (x # xs) = r" using True by (simp add: r_def)
    have le: "\<forall>e\<in>set (x # xs). key e \<le> key r"
      and fnd: "find (\<lambda>p. key p = key r) (x # xs) = Some r"
      unfolding r_def using Cons.IH [of x] by blast+
    have "key x \<le> key r" using le by simp
    with True have lt: "key b < key r" by simp
    then have nb: "key b \<noteq> key r" by simp
    have 1: "\<forall>e\<in>set (b # x # xs). key e \<le> key r"
      using le lt by (simp add: less_imp_le)
    have "find (\<lambda>p. key p = key r) (b # x # xs) = find (\<lambda>p. key p = key r) (x # xs)"
      using nb by (subst find.simps) simp
    then have 2: "find (\<lambda>p. key p = key r) (b # x # xs) = Some r"
      by (simp only: fnd)
    show ?thesis
      unfolding r using 1 2 by (rule conjI)
  next
    case False
    define r where "r = py_max_from key b xs"
    have r: "py_max_from key b (x # xs) = r" using False by (simp add: r_def)
    have le: "\<forall>e\<in>set (b # xs). key e \<le> key r"
      and fnd: "find (\<lambda>p. key p = key r) (b # xs) = Some r"
      unfolding r_def using Cons.IH [of b] by blast+
    have kx: "key x \<le> key b" using False by simp
    have kb: "key b \<le> key r" using le by simp
    have 1: "\<forall>e\<in>set (b # x # xs). key e \<le> key r"
      using le kx kb by auto
    have 2: "find (\<lambda>p. key p = key r) (b # x # xs) = Some r"
    proof (cases "key b = key r")
      case True
      have "find (\<lambda>p. key p = key r) (b # xs) = Some b" using True by simp
      with fnd have "r = b" by simp
      then show ?thesis using True by simp
    next
      case False
      with kb have "key b < key r" by simp
      with kx have nx: "key x \<noteq> key r" by simp
      have "find (\<lambda>p. key p = key r) (b # xs) = find (\<lambda>p. key p = key r) xs"
        using False by simp
      with fnd have "find (\<lambda>p. key p = key r) xs = Some r" by simp
      then show ?thesis using False nx by simp
    qed
    show ?thesis
      unfolding r using 1 2 by (rule conjI)
  qed
qed

lemma first_max_key_peak: "fst (peak_hour_of hs) = first_max_key hs"
proof (cases hs)
  case Nil
  then show ?thesis by (simp add: peak_hour_of_def first_max_key_def)
next
  case (Cons x xs)
  let ?r = "py_max_from snd x xs"
  note m = py_max_from_find [of x xs snd]
  have fnd: "find (\<lambda>p. snd p = snd ?r) hs = Some ?r" using m unfolding Cons by blast
  then have mem: "?r \<in> set hs" by (auto simp: find_Some_iff in_set_conv_nth)
  have le: "\<And>e. e \<in> set hs \<Longrightarrow> snd e \<le> snd ?r" using m unfolding Cons by blast
  have mx: "Max (set (map snd hs)) = snd ?r"
    using mem le by (intro Max_eqI) auto
  have ph: "fst (peak_hour_of hs) = Some (fst ?r)"
    by (simp add: peak_hour_of_def Cons Let_def)
  show ?thesis
    by (simp only: ph first_max_key_def mx fnd option.map)
qed

lemma report_fields:
  assumes "generate_analytics_report mean_ints s now = Inr r"
  shows "peak_hour r = fst (peak_hour_of (hourly_stats s))"
    and "avg_dwell_time_seconds r =
      (if device_values s = [] then 0
       else sum_list (map dwell_time (device_values s)) / of_nat (length (device_values s)))"
  using assms
  by (auto simp: generate_analytics_report_def Let_def np_mean_def split: sum.splits if_splits)

lemma report_exact_mean:
  "(\<exists>r. generate_analytics_report exact_mean s now = Inr r) \<longleftrightarrow>
     (\<exists>rate. connection_rate (total_connections s) (total_probes s) = Inr rate)"
  by (auto simp: generate_analytics_report_def Let_def exact_mean_def split: sum.splits)

text \<open>
  On a tie \<open>max\<close> returns the bucket inserted first. When the clock steps back across an
  hour boundary between two device events (here by 0.7 seconds), the later hour is inserted
  first and wins the tie against the earlier hour.
\<close>

theorem peak_hour_tie_counterexample:
  "map_sum id peak_hour
     (generate_analytics_report exact_mean
        (run (init 0) [AddDevice 18000500000 ''AA:BB:CC:DD:EE:01'' (- 40) ''NEARBY'',
                       AddDevice 17999800000 ''AA:BB:CC:DD:EE:02'' (- 50) ''NEARBY'']) 18001000000)
     = Inr (Some 5)
   \<and> hourly_stats (run (init 0) [AddDevice 18000500000 ''AA:BB:CC:DD:EE:01'' (- 40) ''NEARBY'',
                       AddDevice 17999800000 ''AA:BB:CC:DD:EE:02'' (- 50) ''NEARBY''])
     = [(5, 1), (4, 1)]
   \<and> spec_peak_hour (hourly_stats
        (run (init 0) [AddDevice 18000500000 ''AA:BB:CC:DD:EE:01'' (- 40) ''NEARBY'',
                       AddDevice 17999800000 ''AA:BB:CC:DD:EE:02'' (- 50) ''NEARBY'']))
     = Some 4"
proof -
  let ?s = "run (init 0) [AddDevice 18000500000 ''AA:BB:CC:DD:EE:01'' (- 40) ''NEARBY'',
                       AddDevice 17999800000 ''AA:BB:CC:DD:EE:02'' (- 50) ''NEARBY'']"
  have hs: "hourly_stats ?s = [(5, 1), (4, 1)]"
    by (simp add: run_def hourly_stats_add_device init_def bump_hour_def dict_get_def hour_key_def)
  have "connection_rate (total_connections ?s) (total_probes ?s) = Inr (Finite 0)"
    by (simp add: eval_defs connection_rate_cases)
  then obtain r where r: "generate_analytics_report exact_mean ?s 18001000000 = Inr r"
    using report_exact_mean [of ?s 18001000000] by blast
  have "peak_hour r = Some 5"
    by (simp add: report_fields(1) [OF r] hs peak_hour_of_def)
  moreover have "spec_peak_hour [(5, 1), (4, 1)] = Some 4"
    by (simp add: spec_peak_hour_def)
  ultimately show ?thesis
    by (simp only: r hs map_sum.simps id_apply simp_thms)
qed

text \<open>
  C7 (amended). In every report that \<open>generate_analytics_report\<close> returns, \<open>peak_hour\<close> is
  the hour key with the maximum count, a tie going to the key inserted first (\<open>'N/A'\<close>
  without buckets); that is the earliest such hour key whenever the times of successive
  calls do not decrease. \<open>avg_dwell_time_seconds\<close> is the arithmetic mean of the dwell
  times of all device records, and 0 when there is none. With means that do not raise, the
  report is returned unless the success rate raises.
\<close>

theorem report_peak_hour_and_dwell:
  assumes "generate_analytics_report mean_ints (run (init t0) cs) now = Inr r"
  shows "peak_hour r = first_max_key (hourly_stats (run (init t0) cs))
     \<and> (sorted (map call_time cs) \<longrightarrow>
          peak_hour r = spec_peak_hour (hourly_stats (run (init t0) cs)))
     \<and> avg_dwell_time_seconds r =
         (if device_values (run (init t0) cs) = [] then 0
          else sum_list (map dwell_time (device_values (run (init t0) cs)))
                 / of_nat (length (device_values (run (init t0) cs))))
     \<and> ((\<exists>r'. generate_analytics_report exact_mean (run (init t0) cs) now = Inr r') \<longleftrightarrow>
          (\<exists>rate. connection_rate (total_connections (run (init t0) cs))
                     (total_probes (run (init t0) cs)) = Inr rate))"
proof -
  note f = report_fields [OF assms]
  have first: "peak_hour r = first_max_key (hourly_stats (run (init t0) cs))"
    by (simp only: f(1) first_max_key_peak)
  have earliest: "peak_hour r = spec_peak_hour (hourly_stats (run (init t0) cs))"
    if "sorted (map call_time cs)"
  proof -
    have "sorted_wrt (<) (map fst (hourly_stats (run (init t0) cs)))"
      using hourly_keys_sorted [OF that] by simp
    then show ?thesis
      by (simp only: f(1) spec_peak_hour_first)
  qed
  show ?thesis
    using earliest by (intro conjI impI first f(2) report_exact_mean) blast
qed

theorem report_peak_hour_and_dwell_witness:
  "sorted (map call_time
      [AddDevice 14400000000 ''AA:BB:CC:DD:EE:01'' (- 40) ''NEARBY'',
       AddDevice 14403000000 ''AA:BB:CC:DD:EE:01'' (- 41) ''NEARBY'',
       AddDevice 18000000000 ''AA:BB:CC:DD:EE:02'' (- 50) ''NEARBY'',
       AddDevice 18001000000 ''AA:BB:CC:DD:EE:02'' (- 52) ''CONNECTED''])
   \<and> hourly_stats (run (init 0)
      [AddDevice 14400000000 ''AA:BB:CC:DD:EE:01'' (- 40) ''NEARBY'',
       AddDevice 14403000000 ''AA:BB:CC:DD:EE:01'' (- 41) ''NEARBY'',
       AddDevice 18000000000 ''AA:BB:CC:DD:EE:02'' (- 50) ''NEARBY'',
       AddDevice 18001000000 ''AA:BB:CC:DD:EE:02'' (- 52) ''CONNECTED'']) = [(4, 2), (5, 2)]
   \<and> map_sum id peak_hour (generate_analytics_report exact_mean (run (init 0)
      [AddDevice 14400000000 ''AA:BB:CC:DD:EE:01'' (- 40) ''NEARBY'',
       AddDevice 14403000000 ''AA:BB:CC:DD:EE:01'' (- 41) ''NEARBY'',
       AddDevice 18000000000 ''AA:BB:CC:DD:EE:02'' (- 50) ''NEARBY'',
       AddDevice 18001000000 ''AA:BB:CC:DD:EE:02'' (- 52) ''CONNECTED'']) 18002000000) = Inr (Some 4)
   \<and> map_sum id avg_dwell_time_seconds (generate_analytics_report exact_mean (run (init 0)
      [AddDevice 14400000000 ''AA:BB:CC:DD:EE:01'' (- 40) ''NEARBY'',
       AddDevice 14403000000 ''AA:BB:CC:DD:EE:01'' (- 41) ''NEARBY'',
       AddDevice 18000000000 ''AA:BB:CC:DD:EE:02'' (- 50) ''NEARBY'',
       AddDevice 18001000000 ''AA:BB:CC:DD:EE:02'' (- 52) ''CONNECTED'']) 18002000000) = Inr 2
   \<and> first_max_key [(4, 2), (5, 2)] = Some 4 \<and> spec_peak_hour [(4, 2), (5, 2)] = Some 4"
proof -
  let ?cs = "[AddDevice 14400000000 ''AA:BB:CC:DD:EE:01'' (- 40) ''NEARBY'',
       AddDevice 14403000000 ''AA:BB:CC:DD:EE:01'' (- 41) ''NEARBY'',
       AddDevice 18000000000 ''AA:BB:CC:DD:EE:02'' (- 50) ''NEARBY'',
       AddDevice 18001000000 ''AA:BB:CC:DD:EE:02'' (- 52) ''CONNECTED'']"
  have srt: "sorted (map call_time ?cs)" by simp
  have hs: "hourly_stats (run (init 0) ?cs) = [(4, 2), (5, 2)]"
    by (simp add: run_def hourly_stats_add_device init_def bump_hour_def dict_get_def hour_key_def)
  have sp: "spec_peak_hour [(4, 2), (5, 2)] = Some 4"
    by (simp add: spec_peak_hour_def)
  have fm: "first_max_key [(4, 2), (5, 2)] = Some 4"
    by (simp add: first_max_key_def)
  have dv: "map dwell_time (device_values (run (init 0) ?cs)) = [3, 1]"
    by (simp add: device_values_def eval_defs)
  have "connection_rate (total_connections (run (init 0) ?cs)) (total_probes (run (init 0) ?cs))
      = Inr (Finite 0)"
    by (simp add: eval_defs connection_rate_cases)
  then obtain r where r: "generate_analytics_report exact_mean (run (init 0) ?cs) 18002000000 = Inr r"
    using report_exact_mean [of "run (init 0) ?cs" 18002000000] by blast
  note T = report_peak_hour_and_dwell [OF r]
  have len: "length (device_values (run (init 0) ?cs)) = 2" "device_values (run (init 0) ?cs) \<noteq> []"
    using arg_cong [OF dv, of length] by auto
  have "avg_dwell_time_seconds r =
         (if device_values (run (init 0) ?cs) = [] then 0
          else sum_list (map dwell_time (device_values (run (init 0) ?cs)))
                 / of_nat (length (device_values (run (init 0) ?cs))))"
    using T by blast
  then have avg: "avg_dwell_time_seconds r = 2"
    by (simp only: dv len if_False) simp
  have "peak_hour r = spec_peak_hour (hourly_stats (run (init 0) ?cs))"
    using T srt by blast
  then have pk: "peak_hour r = Some 4"
    by (simp only: hs sp)
  show ?thesis
    using srt hs pk avg fm sp by (simp only: r map_sum.simps id_apply simp_thms)
qed

end
